theory Spec2Isabelle
  imports Complex_Main
begin

section \<open>Values of the host language\<close>

text \<open>
  The services are TypeScript over a document store. A JavaScript \<open>number\<close> is modelled
  as an exact rational (the values that occur are minutes, kilometres, rates and cents;
  the infinities and binary rounding are outside the model). Where a number comes from
  \<open>Number(x)\<close> on input, it may be \<open>NaN\<close>: the type \<open>jsNumber\<close>. A valid \<open>Date\<close> is its
  time value: milliseconds since 1970-01-01T00:00:00Z, at most 8.64e15 either side; a
  \<open>Date\<close> that may be the Invalid Date is a \<open>date option\<close>. An object id is its 24 digit
  hexadecimal string, which is also how the source compares ids
  (\<open>String(a) !== String(b)\<close>).
\<close>

type_synonym number = rat
type_synonym date = int
type_synonym ObjectId = string

datatype jsNumber = NaN | Num number

definition Math_round :: "number \<Rightarrow> number" where
  \<comment> \<open>\<open>Math.round\<close>: nearest integer, a tie goes up.\<close>
  "Math_round x = of_int \<lfloor>x + 1 / 2\<rfloor>"

definition isHexDigit :: "char \<Rightarrow> bool" where
  "isHexDigit c = (c \<in> set ''0123456789abcdefABCDEF'')"

definition isValidObjectId :: "string \<Rightarrow> bool" where
  \<comment> \<open>\<open>mongoose.isValidObjectId\<close> on a string: the 24 hex digit form.\<close>
  "isValidObjectId s = (length s = 24 \<and> list_all isHexDigit s)"

subsection \<open>Errors\<close>

text \<open>
  \<open>utils/errors\<close>: every error the services throw themselves is an \<open>AppError\<close>
  carrying a message and an HTTP status code; \<open>NotFoundError(resource)\<close> is the 404
  with the message "resource not found". \<open>Thrown\<close> stands for an exception raised by
  the object mapper or the driver (a cast error, a duplicate key), which carries no status.
\<close>

datatype error = AppError string nat | Thrown string

definition NotFoundError :: "string \<Rightarrow> error" where
  "NotFoundError resource = AppError (resource @ '' not found'') 404"

subsection \<open>Dates in UTC\<close>

text \<open>
  The time value of a \<open>Date\<close> lies within 8.64e15 ms of the epoch. \<open>Date.UTC\<close> and every
  setter clip their result (\<open>TimeClip\<close>): outside that range the date becomes the Invalid
  Date, here \<open>None\<close>, and a setter leaves an invalid date invalid.
\<close>

definition msPerDay :: int where
  "msPerDay = 86400000"

definition maxTime :: int where
  "maxTime = 8640000000000000"

definition TimeClip :: "int \<Rightarrow> date option" where
  "TimeClip t = (if \<bar>t\<bar> \<le> maxTime then Some t else None)"

definition getUTCDay :: "date \<Rightarrow> int" where
  \<comment> \<open>Day of the week, 0 = Sunday .. 6 = Saturday; day 0 of the epoch was a Thursday.\<close>
  "getUTCDay t = (t div msPerDay + 4) mod 7"

text \<open>
  The calendar of the language standard, as far as \<open>Date.UTC\<close> needs it. \<open>DayFromYear y\<close>
  is the day number of 1 January of year \<open>y\<close>; \<open>monthStart\<close> lists the day within the year
  on which each month begins. \<open>Date.UTC(year, month, day)\<close> returns the time of day number
  \<open>DayFromYear year + monthStart ! month + day - 1\<close>, except that a \<open>year\<close> from 0 to 99
  stands for \<open>1900 + year\<close>.
\<close>

definition DayFromYear :: "int \<Rightarrow> int" where
  "DayFromYear y = 365 * (y - 1970) + (y - 1969) div 4 - (y - 1901) div 100 + (y - 1601) div 400"

definition InLeapYear :: "int \<Rightarrow> bool" where
  "InLeapYear y = (y mod 4 = 0 \<and> (y mod 400 = 0 \<or> y mod 100 \<noteq> 0))"

definition monthStart :: "bool \<Rightarrow> int list" where
  "monthStart leap =
     (if leap then [0, 31, 60, 91, 121, 152, 182, 213, 244, 274, 305, 335]
      else [0, 31, 59, 90, 120, 151, 181, 212, 243, 273, 304, 334])"

definition twoDigitYear :: "date \<Rightarrow> int option" where
  \<comment> \<open>\<open>d.getUTCFullYear()\<close> when it is one of 0 .. 99, else \<open>None\<close>.\<close>
  "twoDigitYear d =
     find (\<lambda>y. DayFromYear y \<le> d div msPerDay \<and> d div msPerDay < DayFromYear (y + 1)) [0..99]"

definition utcDateOnly :: "date \<Rightarrow> date" where
  \<comment> \<open>\<open>new Date(Date.UTC(d.getUTCFullYear(), d.getUTCMonth(), d.getUTCDate()))\<close>:
      midnight UTC of the calendar day of \<open>d\<close>; for a date of the years 0 to 99 it is
      midnight of the same month and day of the year 1900 later.\<close>
  "utcDateOnly d =
     (let day = d div msPerDay
      in case twoDigitYear d of
        None \<Rightarrow> msPerDay * day
      | Some y \<Rightarrow>
          let dayInYear = day - DayFromYear y;
              starts = monthStart (InLeapYear y);
              month = length (filter (\<lambda>s. s \<le> dayInYear) starts) - 1;
              dt = dayInYear - starts ! month + 1
          in msPerDay * (DayFromYear (1900 + y) + monthStart (InLeapYear (1900 + y)) ! month + dt - 1))"

definition addUTCDate :: "date \<Rightarrow> int \<Rightarrow> date option" where
  \<comment> \<open>\<open>x.setUTCDate(x.getUTCDate() + n)\<close>: the day of the month may leave its range,
      the date then moves by whole days; past the range of time values it is invalid.\<close>
  "addUTCDate x n = TimeClip (x + n * msPerDay)"

definition setUTCHours :: "date \<Rightarrow> int \<Rightarrow> int \<Rightarrow> int \<Rightarrow> int \<Rightarrow> date option" where
  "setUTCHours x h m s ms =
     TimeClip (msPerDay * (x div msPerDay) + ((h * 60 + m) * 60 + s) * 1000 + ms)"

definition startOfWeekUTC :: "date \<Rightarrow> date option" where
  \<comment> \<open>The helper of the shift request service.\<close>
  "startOfWeekUTC d =
     (let x = utcDateOnly d;
          dow = getUTCDay x;
          diffToMon = (dow + 6) mod 7
      in Option.bind (addUTCDate x (- diffToMon)) (\<lambda>x. setUTCHours x 0 0 0 0))"

definition endOfWeekUTC :: "date option \<Rightarrow> date option" where
  "endOfWeekUTC ws =
     Option.bind ws (\<lambda>x. Option.bind (addUTCDate x 6) (\<lambda>x. setUTCHours x 23 59 59 999))"

definition startOfWeekUTC_util :: "date \<Rightarrow> date option" where
  \<comment> \<open>\<open>utils/time-money.ts\<close>: Sunday counts as day 7.\<close>
  "startOfWeekUTC_util d =
     (let dt = utcDateOnly d;
          day = (if getUTCDay dt = 0 then 7 else getUTCDay dt)
      in if day > 1 then addUTCDate dt (- (day - 1)) else Some dt)"

definition endOfWeekUTC_util :: "date option \<Rightarrow> date option" where
  "endOfWeekUTC_util weekStart =
     Option.bind weekStart (\<lambda>end1. Option.bind (addUTCDate end1 6) (\<lambda>end1. setUTCHours end1 23 59 59 999))"

definition minutesBetween :: "date \<Rightarrow> date \<Rightarrow> number" where
  "minutesBetween a b = max 0 (Math_round (of_int (b - a) / 60000))"

section \<open>Data model\<close>

text \<open>
  One record per document type, with the fields of the schemas under \<open>models/\<close> that
  the services read or write. The services also assign properties that the schemas do not
  declare: \<open>approvedBy\<close>, \<open>approvedAt\<close> and \<open>declinedReason\<close> on a shift request,
  \<open>billing\<close> on a shift, \<open>audit\<close> on a timesheet. These are fields of the records too,
  because the document object in memory carries them; but the object mapper writes and
  returns only the paths of the schema, so a document that is saved, and the plain object
  that \<open>toObject()\<close> returns, do not have them (\<open>shiftRequest_toObject\<close>,
  \<open>shift_toObject\<close> and \<open>timesheet_toObject\<close> below). A timesheet line is the object
  that the upsert builds, with \<open>minutes\<close> and the two rates beside the paths of the item
  schema. The \<open>createdAt\<close> and \<open>updatedAt\<close> stamps that the schema option
  \<open>timestamps\<close> maintains are left out.
\<close>

datatype role = PARTICIPANT | TRAINER | ADMIN

datatype userStatus = PENDING | ACTIVE | BLOCKED | DELETED

record user =
  u_id :: ObjectId
  u_email :: string
  u_role :: role
  u_status :: userStatus

record trainer =
  t_id :: ObjectId
  t_userId :: ObjectId
  t_status :: string

record participant =
  p_id :: ObjectId
  p_userId :: ObjectId

datatype shiftRequestStatus =
  PENDING_ADMIN | APPROVED | DECLINED | CANCELLED | IN_PROGRESS | COMPLETED

record shiftRequest =
  sr_id :: ObjectId
  sr_participantId :: ObjectId
  sr_requestedBy :: ObjectId
  sr_service :: string
  sr_start :: date
  sr_end :: date
  sr_notes :: "string option"
  sr_preferredTrainerIds :: "ObjectId list"
  sr_status :: shiftRequestStatus
  sr_assignedTrainerId :: "ObjectId option"
  sr_linkedShiftId :: "ObjectId option"
  sr_adminComment :: "string option"
  sr_approvedBy :: "ObjectId option"
  sr_approvedAt :: "date option"
  sr_declinedReason :: "string option"

datatype shiftStatus = SHIFT_IN_PROGRESS | SHIFT_COMPLETED | SHIFT_CANCELLED

record report =
  rp_activities :: string
  rp_progress :: string
  rp_incidents :: string
  rp_km :: "number option"

record billing =
  bl_billableMinutes :: number
  bl_hourlyRateCents :: number
  bl_kmRateCents :: number
  bl_source :: string
  bl_scheduledStart :: date
  bl_scheduledEnd :: date

record shift =
  sh_id :: ObjectId
  sh_shiftRequestId :: ObjectId
  sh_participantId :: ObjectId
  sh_trainerId :: ObjectId
  sh_service :: string
  sh_scheduledStart :: date
  sh_scheduledEnd :: date
  sh_scheduledDurationMinutes :: number
  sh_actualClockIn :: date
  sh_plannedClockOut :: date
  sh_actualClockOut :: "date option"
  sh_status :: shiftStatus
  sh_report :: "report option"
  sh_billing :: "billing option"

datatype timesheetStatus = DRAFT | SUBMITTED | TS_APPROVED | PAID | REOPENED

text \<open>
  A line item read back from the store may lack any of its numbers (the service reads them
  with \<open>??\<close> defaults), so they are optional.
\<close>

record timesheetItem =
  it_shiftId :: ObjectId
  it_participantId :: ObjectId
  it_date :: date
  it_service :: string
  it_minutes :: "number option"
  it_hours :: "number option"
  it_km :: "number option"
  it_hourlyRateCents :: "number option"
  it_kmRateCents :: "number option"
  it_amountCents :: "number option"
  it_mileageCents :: "number option"
  it_totalCents :: "number option"

record totals =
  tot_hours :: number
  tot_km :: number
  tot_amountCents :: number
  tot_mileageCents :: number
  tot_totalCents :: number

record auditEntry =
  au_by :: string
  au_at :: date
  au_reason :: "string option"

record timesheet =
  ts_id :: ObjectId
  ts_trainerId :: ObjectId
  ts_weekStart :: date
  ts_weekEnd :: date
  ts_status :: timesheetStatus
  ts_items :: "timesheetItem list"
  ts_totals :: totals
  ts_audit :: "auditEntry list option"

subsection \<open>Schema paths\<close>

text \<open>
  What \<open>save()\<close> writes and \<open>toObject()\<close> returns: the document without the properties
  that its schema does not declare.
\<close>

definition shiftRequest_toObject :: "shiftRequest \<Rightarrow> shiftRequest" where
  "shiftRequest_toObject r =
     r\<lparr>sr_approvedBy := None, sr_approvedAt := None, sr_declinedReason := None\<rparr>"

definition shift_toObject :: "shift \<Rightarrow> shift" where
  "shift_toObject s = s\<lparr>sh_billing := None\<rparr>"

definition timesheet_toObject :: "timesheet \<Rightarrow> timesheet" where
  "timesheet_toObject ts = ts\<lparr>ts_audit := None\<rparr>"

subsection \<open>The store\<close>

text \<open>
  A collection is the list of its documents in insertion order. \<open>findById\<close> and
  \<open>findOne\<close> return the first match; \<open>save\<close> writes a loaded document back under its
  \<open>_id\<close>; \<open>create\<close> appends, and the store refuses an \<open>_id\<close> that is already taken.
  The \<open>_id\<close> of a new document is chosen by the driver and is a parameter of the
  operation that inserts.
\<close>

record db =
  users :: "user list"
  trainers :: "trainer list"
  participants :: "participant list"
  shiftRequests :: "shiftRequest list"
  shifts :: "shift list"
  timesheets :: "timesheet list"

definition findById :: "('a \<Rightarrow> ObjectId) \<Rightarrow> ObjectId \<Rightarrow> 'a list \<Rightarrow> 'a option" where
  "findById idOf i coll = find (\<lambda>d. idOf d = i) coll"

definition saveDoc :: "('a \<Rightarrow> ObjectId) \<Rightarrow> 'a \<Rightarrow> 'a list \<Rightarrow> 'a list" where
  "saveDoc idOf d coll = map (\<lambda>x. if idOf x = idOf d then d else x) coll"

definition idTaken :: "('a \<Rightarrow> ObjectId) \<Rightarrow> ObjectId \<Rightarrow> 'a list \<Rightarrow> bool" where
  "idTaken idOf i coll = list_ex (\<lambda>d. idOf d = i) coll"

definition duplicateKey :: error where
  "duplicateKey = Thrown ''E11000 duplicate key error''"

section \<open>Shift request service\<close>

text \<open>
  Every service function takes the store and returns its outcome together with the store
  it leaves behind. The wall clock (\<open>new Date()\<close>) is the parameter \<open>now\<close>.
\<close>

subsection \<open>Creating a request\<close>

datatype dateInput = NoDate | InvalidDate | ValidDate date

fun toDate :: "dateInput \<Rightarrow> date option" where
  \<comment> \<open>\<open>new Date(start)\<close>; \<open>None\<close> is the invalid date.\<close>
  "toDate (ValidDate t) = Some t"
| "toDate _ = None"

definition validateRequestWindow :: "date \<Rightarrow> date option \<Rightarrow> date option \<Rightarrow> error + unit" where
  "validateRequestWindow now start endDt =
     (case start of
        None \<Rightarrow> Inl (AppError ''Invalid start date/time'' 400)
      | Some s \<Rightarrow>
     (case endDt of
        None \<Rightarrow> Inl (AppError ''Invalid end date/time'' 400)
      | Some e \<Rightarrow>
          if s \<ge> e then Inl (AppError ''End time must be after start time'' 400)
          else if e < now then Inl (AppError ''Cannot request a shift in the past'' 400)
          else if (of_int (e - s) :: number) / (1000 * 60) < 30
            then Inl (AppError ''Shift must be at least 30 minutes'' 400)
          else Inr ()))"

record createShiftRequestInput =
  ci_participantId :: string
  ci_requestedBy :: string
  ci_service :: string
  ci_start :: dateInput
  ci_end :: dateInput
  ci_notes :: "string option"
  ci_preferredTrainerIds :: "string list"

definition ensureParticipantOwnership ::
  "string \<Rightarrow> string \<Rightarrow> role option \<Rightarrow> db \<Rightarrow> error + user" where
  "ensureParticipantOwnership participantId userId role d =
     (if \<not> isValidObjectId participantId then Inl (Thrown ''CastError'')
      else case findById u_id participantId (users d) of
        None \<Rightarrow> Inl (NotFoundError ''Participant'')
      | Some participant \<Rightarrow>
          if role \<noteq> Some ADMIN \<and> u_id participant \<noteq> userId
          then Inl (AppError ''You are not allowed to create requests for this participant'' 403)
          else Inr participant)"

definition createShiftRequest ::
  "date \<Rightarrow> ObjectId \<Rightarrow> createShiftRequestInput \<Rightarrow> role option \<Rightarrow> db
     \<Rightarrow> (error + shiftRequest) \<times> db" where
  "createShiftRequest now newId payload role d =
     (if ci_participantId payload = [] \<or> ci_requestedBy payload = [] \<or> ci_service payload = []
         \<or> ci_start payload = NoDate \<or> ci_end payload = NoDate
      then (Inl (AppError ''participantId, service, start and end are required'' 400), d)
      else
        let startDt = toDate (ci_start payload);
            endDt = toDate (ci_end payload)
        in case validateRequestWindow now startDt endDt of
          Inl e \<Rightarrow> (Inl e, d)
        | Inr _ \<Rightarrow>
        (case ensureParticipantOwnership (ci_participantId payload) (ci_requestedBy payload) role d of
          Inl e \<Rightarrow> (Inl e, d)
        | Inr _ \<Rightarrow>
            let trainerIds = filter (\<lambda>i. i \<noteq> []) (ci_preferredTrainerIds payload)
            in if \<not> list_all isValidObjectId trainerIds
                  \<or> \<not> isValidObjectId (ci_requestedBy payload)
               then (Inl (Thrown ''BSONError''), d)
               else
                 let doc = \<lparr> sr_id = newId,
                             sr_participantId = ci_participantId payload,
                             sr_requestedBy = ci_requestedBy payload,
                             sr_service = ci_service payload,
                             sr_start = the startDt,
                             sr_end = the endDt,
                             sr_notes = ci_notes payload,
                             sr_preferredTrainerIds = trainerIds,
                             sr_status = PENDING_ADMIN,
                             sr_assignedTrainerId = None,
                             sr_linkedShiftId = None,
                             sr_adminComment = None,
                             sr_approvedBy = None,
                             sr_approvedAt = None,
                             sr_declinedReason = None \<rparr>
                 in if idTaken sr_id newId (shiftRequests d) then (Inl duplicateKey, d)
                    else (Inr doc, d\<lparr>shiftRequests := shiftRequests d @ [doc]\<rparr>)))"

subsection \<open>Approving and declining\<close>

text \<open>
  \<open>Trainer.findById(trainerId).populate("userId")\<close> replaces the trainer's \<open>userId\<close> by
  the user document, or by null when there is none; the notification mails that follow the
  save are caught by the service and change nothing in the store. Both functions return
  the document object itself, which carries \<open>approvedBy\<close> and \<open>approvedAt\<close> as plain
  properties; what is saved are the paths of the schema. The trainer's profile status is
  compared with the string \<open>"PENDING"\<close>; the profile schema's default is \<open>"pending"\<close>.
\<close>

definition approveAndAssign ::
  "date \<Rightarrow> string \<Rightarrow> string \<Rightarrow> string \<Rightarrow> db \<Rightarrow> (error + shiftRequest) \<times> db" where
  "approveAndAssign now requestId trainerId adminUserId d =
     (if \<not> isValidObjectId requestId then (Inl (AppError ''Invalid requestId'' 400), d)
      else if \<not> isValidObjectId trainerId then (Inl (AppError ''Invalid trainerId'' 400), d)
      else if \<not> isValidObjectId adminUserId then (Inl (AppError ''Invalid adminUserId'' 400), d)
      else case findById sr_id requestId (shiftRequests d) of
        None \<Rightarrow> (Inl (NotFoundError ''ShiftRequest''), d)
      | Some reqDoc \<Rightarrow>
          if sr_status reqDoc \<noteq> PENDING_ADMIN
          then (Inl (AppError ''Only PENDING_ADMIN requests can be approved'' 409), d)
          else (case findById t_id trainerId (trainers d) of
            None \<Rightarrow> (Inl (NotFoundError ''Trainer''), d)
          | Some trainer \<Rightarrow>
              let trainerUser = findById u_id (t_userId trainer) (users d)
              in if map_option u_role trainerUser \<noteq> Some TRAINER
                    \<or> map_option u_status trainerUser = Some BLOCKED
                    \<or> t_status trainer = ''PENDING''
                 then (Inl (AppError ''Trainer is not eligible for assignment'' 400), d)
                 else (case find (\<lambda>p. p_userId p = sr_participantId reqDoc) (participants d) of
                   None \<Rightarrow> (Inl (NotFoundError ''Participant''), d)
                 | Some participant \<Rightarrow>
                     let reqDoc = reqDoc\<lparr> sr_status := APPROVED,
                                          sr_assignedTrainerId := Some trainerId,
                                          sr_approvedBy := Some adminUserId,
                                          sr_approvedAt := Some now \<rparr>
                     in (Inr reqDoc,
                         d\<lparr>shiftRequests :=
                             saveDoc sr_id (shiftRequest_toObject reqDoc) (shiftRequests d)\<rparr>))))"

definition decline ::
  "date \<Rightarrow> string \<Rightarrow> string \<Rightarrow> string option \<Rightarrow> db \<Rightarrow> (error + shiftRequest) \<times> db" where
  "decline now requestId adminUserId reason d =
     (if \<not> isValidObjectId requestId then (Inl (AppError ''Invalid requestId'' 400), d)
      else case findById sr_id requestId (shiftRequests d) of
        None \<Rightarrow> (Inl (NotFoundError ''ShiftRequest''), d)
      | Some reqDoc \<Rightarrow>
          if sr_status reqDoc \<noteq> PENDING_ADMIN
          then (Inl (AppError ''Only PENDING_ADMIN requests can be declined'' 409), d)
          else if \<not> isValidObjectId adminUserId then (Inl (Thrown ''BSONError''), d)
          else
            let reqDoc = reqDoc\<lparr> sr_status := DECLINED,
                                 sr_approvedBy := Some adminUserId,
                                 sr_approvedAt := Some now,
                                 sr_declinedReason := (if reason = Some [] then None else reason) \<rparr>
            in (Inr reqDoc,
                d\<lparr>shiftRequests := saveDoc sr_id (shiftRequest_toObject reqDoc) (shiftRequests d)\<rparr>))"

subsection \<open>Clock-in\<close>

definition clockInShiftAsTrainer ::
  "date \<Rightarrow> ObjectId \<Rightarrow> string \<Rightarrow> string \<Rightarrow> db \<Rightarrow> (error + shift) \<times> db" where
  "clockInShiftAsTrainer now newId trainerUserId shiftRequestId d =
     (if \<not> isValidObjectId trainerUserId then (Inl (AppError ''Invalid trainer user id'' 400), d)
      else if \<not> isValidObjectId shiftRequestId
        then (Inl (AppError ''Invalid shift request id'' 400), d)
      else case find (\<lambda>t. t_userId t = trainerUserId) (trainers d) of
        None \<Rightarrow> (Inl (AppError ''Trainer profile not found for this user'' 404), d)
      | Some trainer \<Rightarrow>
      (case findById sr_id shiftRequestId (shiftRequests d) of
        None \<Rightarrow> (Inl (NotFoundError ''ShiftRequest''), d)
      | Some reqDoc \<Rightarrow>
          if sr_assignedTrainerId reqDoc \<noteq> Some (t_id trainer)
          then (Inl (AppError ''This shift request is not assigned to you'' 403), d)
          else if sr_status reqDoc \<noteq> APPROVED
          then (Inl (AppError ''Only approved shift requests can be started'' 409), d)
          else (case find (\<lambda>s. sh_shiftRequestId s = sr_id reqDoc \<and> sh_status s = SHIFT_IN_PROGRESS)
                      (shifts d) of
            Some existingActive \<Rightarrow> (Inl (AppError ''This shift is already in progress'' 409), d)
          | None \<Rightarrow>
              let scheduledStart = sr_start reqDoc;
                  scheduledEnd = sr_end reqDoc
              in if scheduledStart = 0 \<or> scheduledEnd = 0 \<or> scheduledEnd \<le> scheduledStart
                 then (Inl (AppError ''Shift request has invalid time window'' 500), d)
                 else
                   let scheduledDurationMs = scheduledEnd - scheduledStart;
                       scheduledDurationMinutes = Math_round (of_int scheduledDurationMs / 60000);
                       plannedClockOut = now + scheduledDurationMs;
                       shift = \<lparr> sh_id = newId,
                                 sh_shiftRequestId = sr_id reqDoc,
                                 sh_participantId = sr_participantId reqDoc,
                                 sh_trainerId = t_id trainer,
                                 sh_service = sr_service reqDoc,
                                 sh_scheduledStart = scheduledStart,
                                 sh_scheduledEnd = scheduledEnd,
                                 sh_scheduledDurationMinutes = scheduledDurationMinutes,
                                 sh_actualClockIn = now,
                                 sh_plannedClockOut = plannedClockOut,
                                 sh_actualClockOut = None,
                                 sh_status = SHIFT_IN_PROGRESS,
                                 sh_report = None,
                                 sh_billing = None \<rparr>
                   in if idTaken sh_id newId (shifts d) then (Inl duplicateKey, d)
                      else
                        let reqDoc = reqDoc\<lparr>sr_linkedShiftId := Some newId\<rparr>
                        in (Inr shift,
                            d\<lparr> shifts := shifts d @ [shift],
                               shiftRequests := saveDoc sr_id reqDoc (shiftRequests d) \<rparr>))))"

subsection \<open>Weekly timesheet upsert\<close>

record upsertArgs =
  ua_trainerId :: ObjectId
  ua_participantId :: ObjectId
  ua_shiftId :: ObjectId
  ua_service :: string
  ua_date :: date
  ua_minutes :: number
  ua_km :: "number option"
  ua_hourlyRateCents :: number
  ua_kmRateCents :: "number option"

fun orElse :: "'a option \<Rightarrow> 'a \<Rightarrow> 'a" where
  \<comment> \<open>\<open>x ?? dflt\<close>, and a default parameter value.\<close>
  "orElse None dflt = dflt"
| "orElse (Some x) dflt = x"

fun findIndex :: "('a \<Rightarrow> bool) \<Rightarrow> 'a list \<Rightarrow> nat option" where
  \<comment> \<open>\<open>Array.prototype.findIndex\<close>; \<open>None\<close> is the result -1.\<close>
  "findIndex P [] = None"
| "findIndex P (x # xs) = (if P x then Some 0 else map_option Suc (findIndex P xs))"

definition findOneAndUpsertTimesheet ::
  "ObjectId \<Rightarrow> ObjectId \<Rightarrow> date \<Rightarrow> date \<Rightarrow> db \<Rightarrow> error + timesheet \<times> db" where
  \<comment> \<open>\<open>Timesheet.findOneAndUpdate({trainerId, weekStart}, {$setOnInsert: ...},
      {upsert: true, new: true})\<close> for valid dates. The object mapper casts the query and
      the update before it sends them: with an Invalid Date for \<open>weekStart\<close> or \<open>weekEnd\<close>
      the call throws a cast error and nothing is written, which is the last case of
      \<open>upsertTimesheetForShift\<close> below.\<close>
  "findOneAndUpsertTimesheet newId trainerId weekStart weekEnd d =
     (case find (\<lambda>t. ts_trainerId t = trainerId \<and> ts_weekStart t = weekStart) (timesheets d) of
        Some ts \<Rightarrow> Inr (ts, d)
      | None \<Rightarrow>
          if idTaken ts_id newId (timesheets d) then Inl duplicateKey
          else
            let ts = \<lparr> ts_id = newId,
                        ts_trainerId = trainerId,
                        ts_weekStart = weekStart,
                        ts_weekEnd = weekEnd,
                        ts_status = DRAFT,
                        ts_items = [],
                        ts_totals = \<lparr> tot_hours = 0, tot_km = 0, tot_amountCents = 0,
                                      tot_mileageCents = 0, tot_totalCents = 0 \<rparr>,
                        ts_audit = None \<rparr>
            in Inr (ts, d\<lparr>timesheets := timesheets d @ [ts]\<rparr>))"

definition backfillHours :: "timesheetItem \<Rightarrow> timesheetItem" where
  "backfillHours i =
     i\<lparr>it_hours := Some (case it_hours i of Some h \<Rightarrow> h | None \<Rightarrow> orElse (it_minutes i) 0 / 60)\<rparr>"

record sumAcc =
  acc_minutes :: number
  acc_hours :: number
  acc_km :: number
  acc_amountCents :: number
  acc_mileageCents :: number

definition sumStep :: "sumAcc \<Rightarrow> timesheetItem \<Rightarrow> sumAcc" where
  "sumStep acc i =
     acc\<lparr> acc_minutes := acc_minutes acc + orElse (it_minutes i) 0,
          acc_hours := acc_hours acc + orElse (it_hours i) (orElse (it_minutes i) 0 / 60),
          acc_km := acc_km acc + orElse (it_km i) 0,
          acc_amountCents := acc_amountCents acc + orElse (it_amountCents i) 0,
          acc_mileageCents := acc_mileageCents acc + orElse (it_mileageCents i) 0 \<rparr>"

definition sumZero :: sumAcc where
  "sumZero = \<lparr> acc_minutes = 0, acc_hours = 0, acc_km = 0, acc_amountCents = 0,
                acc_mileageCents = 0 \<rparr>"

definition upsertTimesheetForShift ::
  "ObjectId \<Rightarrow> upsertArgs \<Rightarrow> db \<Rightarrow> (error + timesheet) \<times> db" where
  "upsertTimesheetForShift newId a d =
     (let km = orElse (ua_km a) 0;
          kmRateCents = orElse (ua_kmRateCents a) 0;
          weekStart = startOfWeekUTC (ua_date a);
          weekEnd = endOfWeekUTC weekStart;
          hours = ua_minutes a / 60;
          amountCents = Math_round (hours * ua_hourlyRateCents a);
          mileageCents = Math_round (km * kmRateCents);
          totalCents = amountCents + mileageCents
      in case (weekStart, weekEnd) of
        (Some weekStart, Some weekEnd) \<Rightarrow>
          (case findOneAndUpsertTimesheet newId (ua_trainerId a) weekStart weekEnd d of
            Inl e \<Rightarrow> (Inl e, d)
          | Inr (ts, d) \<Rightarrow>
              let item = \<lparr> it_shiftId = ua_shiftId a,
                            it_participantId = ua_participantId a,
                            it_date = ua_date a,
                            it_service = ua_service a,
                            it_minutes = Some (ua_minutes a),
                            it_hours = Some hours,
                            it_km = Some km,
                            it_hourlyRateCents = Some (ua_hourlyRateCents a),
                            it_kmRateCents = Some kmRateCents,
                            it_amountCents = Some amountCents,
                            it_mileageCents = Some mileageCents,
                            it_totalCents = Some totalCents \<rparr>;
                  items = (case findIndex (\<lambda>i. it_shiftId i = ua_shiftId a) (ts_items ts) of
                             Some idx \<Rightarrow> (ts_items ts)[idx := item]
                           | None \<Rightarrow> ts_items ts @ [item]);
                  items = map backfillHours items;
                  sum = foldl sumStep sumZero items;
                  ts = ts\<lparr> ts_items := items,
                          ts_weekEnd := weekEnd,
                          ts_totals := (ts_totals ts)\<lparr> tot_hours := acc_hours sum,
                                                       tot_km := acc_km sum,
                                                       tot_amountCents := acc_amountCents sum,
                                                       tot_mileageCents := acc_mileageCents sum,
                                                       tot_totalCents :=
                                                         acc_amountCents sum + acc_mileageCents sum \<rparr> \<rparr>
              in (Inr ts, d\<lparr>timesheets := saveDoc ts_id ts (timesheets d)\<rparr>))
      | _ \<Rightarrow> (Inl (Thrown ''CastError''), d))"

definition upsertTimesheetForShift_NaN :: "ObjectId \<Rightarrow> ObjectId \<Rightarrow> date \<Rightarrow> db \<Rightarrow> error \<times> db" where
  \<comment> \<open>\<open>upsertTimesheetForShift\<close> called with \<open>km = NaN\<close>, as clock-out does for a report
      whose \<open>km\<close> is not numeric: the week's sheet is found or inserted as above; the line's
      \<open>km\<close>, \<open>mileageCents\<close> and \<open>totalCents\<close> and the totals are then \<open>NaN\<close>, which
      \<open>ts.save()\<close> refuses with a validation error.\<close>
  "upsertTimesheetForShift_NaN newId trainerId date d =
     (let weekStart = startOfWeekUTC date;
          weekEnd = endOfWeekUTC weekStart
      in case (weekStart, weekEnd) of
        (Some weekStart, Some weekEnd) \<Rightarrow>
          (case findOneAndUpsertTimesheet newId trainerId weekStart weekEnd d of
            Inl e \<Rightarrow> (e, d)
          | Inr (ts, d) \<Rightarrow> (Thrown ''ValidationError'', d))
      | _ \<Rightarrow> (Thrown ''CastError'', d))"

subsection \<open>Clock-out\<close>

text \<open>
  The report's \<open>km\<close> is what \<open>Number(report.km)\<close> yields: a number, or \<open>NaN\<close> for an
  entry that is not numeric. The billing snapshot is assigned to the property \<open>billing\<close>
  of the shift document; the shift schema declares no such path, so \<open>shift.save()\<close> does
  not write it and \<open>shift.toObject()\<close> does not return it. The check that the shift is
  \<open>IN_PROGRESS\<close> is commented out in the source.
\<close>

record reportInput =
  ri_activities :: "string option"
  ri_progress :: "string option"
  ri_incidents :: "string option"
  ri_km :: "jsNumber option"

definition getPricingSnapshotForShift :: "shift \<Rightarrow> number \<times> number" where
  \<comment> \<open>(hourlyRateCents, kmRateCents)\<close>
  "getPricingSnapshotForShift shift = (6500, 85)"

definition clockOutShiftAsTrainer ::
  "date \<Rightarrow> ObjectId \<Rightarrow> string \<Rightarrow> string \<Rightarrow> reportInput option \<Rightarrow> db
     \<Rightarrow> (error + shift \<times> timesheet) \<times> db" where
  "clockOutShiftAsTrainer now newTimesheetId trainerUserId shiftRequestId report d =
     (if \<not> isValidObjectId trainerUserId then (Inl (AppError ''Invalid trainer user id'' 400), d)
      else if \<not> isValidObjectId shiftRequestId
        then (Inl (AppError ''Invalid shift request id'' 400), d)
      else case find (\<lambda>t. t_userId t = trainerUserId) (trainers d) of
        None \<Rightarrow> (Inl (AppError ''Trainer profile not found for this user'' 404), d)
      | Some trainer \<Rightarrow>
      (case findById sr_id shiftRequestId (shiftRequests d) of
        None \<Rightarrow> (Inl (NotFoundError ''ShiftRequest''), d)
      | Some reqDoc \<Rightarrow>
          if sr_assignedTrainerId reqDoc \<noteq> Some (t_id trainer)
          then (Inl (AppError ''This shift request is not assigned to you'' 403), d)
          else (case Option.bind (sr_linkedShiftId reqDoc) (\<lambda>sid. findById sh_id sid (shifts d)) of
            None \<Rightarrow> (Inl (NotFoundError ''Shift''), d)
          | Some shift \<Rightarrow>
              let auditOut = (if now > sh_scheduledEnd shift then sh_scheduledEnd shift else now);
                  shift = shift\<lparr>sh_actualClockOut := Some auditOut, sh_status := SHIFT_COMPLETED\<rparr>;
                  kmNum = Option.bind report ri_km;
                  shift = shift\<lparr>sh_report := Some
                            \<lparr> rp_activities = orElse (Option.bind report ri_activities) [],
                              rp_progress = orElse (Option.bind report ri_progress) [],
                              rp_incidents = orElse (Option.bind report ri_incidents) [],
                              rp_km = (case kmNum of Some (Num k) \<Rightarrow> Some k | _ \<Rightarrow> None) \<rparr>\<rparr>;
                  scheduledStart = sr_start reqDoc;
                  scheduledEnd = sr_end reqDoc;
                  billableMinutes = minutesBetween scheduledStart scheduledEnd;
                  (hourlyRateCents, kmRateCents) = getPricingSnapshotForShift shift;
                  shift = shift\<lparr>sh_billing := Some
                            \<lparr> bl_billableMinutes = billableMinutes,
                              bl_hourlyRateCents = hourlyRateCents,
                              bl_kmRateCents = kmRateCents,
                              bl_source = ''ShiftRequest'',
                              bl_scheduledStart = scheduledStart,
                              bl_scheduledEnd = scheduledEnd \<rparr>\<rparr>;
                  d = d\<lparr>shifts := saveDoc sh_id (shift_toObject shift) (shifts d)\<rparr>;
                  reqDoc = reqDoc\<lparr>sr_status := COMPLETED\<rparr>;
                  d = d\<lparr>shiftRequests := saveDoc sr_id reqDoc (shiftRequests d)\<rparr>
              in (case orElse kmNum (Num 0) of
                    NaN \<Rightarrow>
                      (case upsertTimesheetForShift_NaN newTimesheetId (sh_trainerId shift)
                              scheduledEnd d of
                         (e, d) \<Rightarrow> (Inl e, d))
                  | Num km \<Rightarrow>
                      (case upsertTimesheetForShift newTimesheetId
                              \<lparr> ua_trainerId = sh_trainerId shift,
                                ua_participantId = sh_participantId shift,
                                ua_shiftId = sh_id shift,
                                ua_service = sh_service shift,
                                ua_date = scheduledEnd,
                                ua_minutes = billableMinutes,
                                ua_km = Some km,
                                ua_hourlyRateCents = hourlyRateCents,
                                ua_kmRateCents = Some kmRateCents \<rparr> d of
                         (Inl e, d) \<Rightarrow> (Inl e, d)
                       | (Inr timesheet, d) \<Rightarrow> (Inr (shift_toObject shift, timesheet), d))))))"

section \<open>Timesheet service\<close>

definition submitTimesheet :: "string \<Rightarrow> string \<Rightarrow> db \<Rightarrow> (error + timesheet) \<times> db" where
  \<comment> \<open>The ownership check and the check that only a DRAFT is submitted are commented
      out in the source.\<close>
  "submitTimesheet ident trainerUserId d =
     (if \<not> isValidObjectId ident then (Inl (AppError ''Invalid id'' 400), d)
      else case findById ts_id ident (timesheets d) of
        None \<Rightarrow> (Inl (NotFoundError ''Timesheet''), d)
      | Some ts \<Rightarrow>
          let ts = ts\<lparr>ts_status := SUBMITTED\<rparr>
          in (Inr ts, d\<lparr>timesheets := saveDoc ts_id ts (timesheets d)\<rparr>))"

definition approveTimesheet :: "string \<Rightarrow> string \<Rightarrow> db \<Rightarrow> (error + timesheet) \<times> db" where
  "approveTimesheet ident adminUserId d =
     (if \<not> isValidObjectId ident then (Inl (AppError ''Invalid id'' 400), d)
      else case findById ts_id ident (timesheets d) of
        None \<Rightarrow> (Inl (NotFoundError ''Timesheet''), d)
      | Some ts \<Rightarrow>
          if ts_status ts \<notin> set [SUBMITTED, REOPENED]
          then (Inl (AppError ''Only SUBMITTED/REOPENED can be approved'' 409), d)
          else
            let ts = ts\<lparr>ts_status := TS_APPROVED\<rparr>
            in (Inr ts, d\<lparr>timesheets := saveDoc ts_id ts (timesheets d)\<rparr>))"

definition reopenTimesheet ::
  "date \<Rightarrow> string \<Rightarrow> string \<Rightarrow> string option \<Rightarrow> db \<Rightarrow> (error + timesheet) \<times> db" where
  \<comment> \<open>The audit entry is put on the document object; \<open>audit\<close> is no path of the schema,
      so \<open>ts.save()\<close> does not write it and \<open>ts.toObject()\<close> does not return it.\<close>
  "reopenTimesheet now ident adminUserId reason d =
     (if \<not> isValidObjectId ident then (Inl (AppError ''Invalid id'' 400), d)
      else case findById ts_id ident (timesheets d) of
        None \<Rightarrow> (Inl (NotFoundError ''Timesheet''), d)
      | Some ts \<Rightarrow>
          if ts_status ts \<notin> set [SUBMITTED, TS_APPROVED]
          then (Inl (AppError ''Only SUBMITTED/APPROVED can be reopened'' 409), d)
          else
            let ts = ts\<lparr>ts_status := REOPENED\<rparr>;
                ts = ts\<lparr>ts_audit := Some (orElse (ts_audit ts) []
                          @ [\<lparr>au_by = adminUserId, au_at = now, au_reason = reason\<rparr>])\<rparr>
            in (Inr (timesheet_toObject ts),
                d\<lparr>timesheets := saveDoc ts_id (timesheet_toObject ts) (timesheets d)\<rparr>))"

section \<open>Histories and invariants\<close>

text \<open>
  A store is reachable when it arises from a store without requests, shifts and timesheets
  by calls of the services above, whatever their arguments and whatever their outcome.
  The profile collections (users, trainers, participants) belong to other services and
  may change freely between two calls.
\<close>

inductive reachable :: "db \<Rightarrow> bool" where
  init: "shiftRequests d = [] \<Longrightarrow> shifts d = [] \<Longrightarrow> timesheets d = [] \<Longrightarrow> reachable d"
| profiles: "reachable d \<Longrightarrow> reachable (d\<lparr>users := us, trainers := trs, participants := ps\<rparr>)"
| create: "reachable d \<Longrightarrow> reachable (snd (createShiftRequest now newId payload role d))"
| approve: "reachable d \<Longrightarrow> reachable (snd (approveAndAssign now requestId trainerId adminUserId d))"
| decline: "reachable d \<Longrightarrow> reachable (snd (decline now requestId adminUserId reason d))"
| clockIn: "reachable d \<Longrightarrow> reachable (snd (clockInShiftAsTrainer now newId trainerUserId requestId d))"
| clockOut: "reachable d \<Longrightarrow>
     reachable (snd (clockOutShiftAsTrainer now newId trainerUserId requestId report d))"
| upsert: "reachable d \<Longrightarrow> reachable (snd (upsertTimesheetForShift newId a d))"
| submit: "reachable d \<Longrightarrow> reachable (snd (submitTimesheet ident trainerUserId d))"
| approveTs: "reachable d \<Longrightarrow> reachable (snd (approveTimesheet ident adminUserId d))"
| reopen: "reachable d \<Longrightarrow> reachable (snd (reopenTimesheet now ident adminUserId reason d))"

fun upsertAll :: "(ObjectId \<times> upsertArgs) list \<Rightarrow> db \<Rightarrow> db" where
  \<comment> \<open>A sequence of upsert calls, each with the id the store would give a new sheet.\<close>
  "upsertAll [] d = d"
| "upsertAll ((newId, a) # calls) d = upsertAll calls (snd (upsertTimesheetForShift newId a d))"

subsection \<open>Shifts and requests\<close>

definition inProgressCount :: "ObjectId \<Rightarrow> db \<Rightarrow> nat" where
  "inProgressCount requestId d =
     length (filter (\<lambda>s. sh_shiftRequestId s = requestId \<and> sh_status s = SHIFT_IN_PROGRESS) (shifts d))"

definition linkOk :: "db \<Rightarrow> shiftRequest \<Rightarrow> bool" where
  \<comment> \<open>A linked shift exists and carries the window of its request.\<close>
  "linkOk d r =
     (case sr_linkedShiftId r of
        None \<Rightarrow> True
      | Some sid \<Rightarrow>
          (case findById sh_id sid (shifts d) of
             None \<Rightarrow> False
           | Some s \<Rightarrow> sh_scheduledStart s = sr_start r \<and> sh_scheduledEnd s = sr_end r))"

definition windowOk :: "shiftRequest \<Rightarrow> bool" where
  \<comment> \<open>At least 30 minutes long.\<close>
  "windowOk r = (1800000 \<le> sr_end r - sr_start r)"


subsection \<open>Timesheets\<close>

definition sumOf :: "(timesheetItem \<Rightarrow> number option) \<Rightarrow> timesheetItem list \<Rightarrow> number" where
  "sumOf f its = sum_list (map (\<lambda>i. orElse (f i) 0) its)"

definition totalsAreSums :: "timesheet \<Rightarrow> bool" where
  "totalsAreSums ts =
     (tot_totalCents (ts_totals ts) = sumOf it_totalCents (ts_items ts)
      \<and> tot_hours (ts_totals ts) = sumOf it_hours (ts_items ts)
      \<and> tot_km (ts_totals ts) = sumOf it_km (ts_items ts)
      \<and> tot_amountCents (ts_totals ts) = sumOf it_amountCents (ts_items ts)
      \<and> tot_mileageCents (ts_totals ts) = sumOf it_mileageCents (ts_items ts))"

definition itemConsistent :: "timesheetItem \<Rightarrow> bool" where
  \<comment> \<open>The line total is labour plus travel.\<close>
  "itemConsistent i =
     (orElse (it_totalCents i) 0 = orElse (it_amountCents i) 0 + orElse (it_mileageCents i) 0)"

definition sheetOk :: "timesheet \<Rightarrow> bool" where
  "sheetOk ts = (list_all itemConsistent (ts_items ts) \<and> totalsAreSums ts)"

definition weekOk :: "timesheet \<Rightarrow> bool" where
  \<comment> \<open>The sheet's week end is the end of the week that starts at its week start.\<close>
  "weekOk ts = (endOfWeekUTC (Some (ts_weekStart ts)) = Some (ts_weekEnd ts))"

definition findSheet :: "ObjectId \<Rightarrow> date \<Rightarrow> db \<Rightarrow> timesheet option" where
  \<comment> \<open>The sheet of a trainer and week, as the upsert's query finds it.\<close>
  "findSheet trainerId weekStart d =
     find (\<lambda>t. ts_trainerId t = trainerId \<and> ts_weekStart t = weekStart) (timesheets d)"

definition itemCount :: "ObjectId \<Rightarrow> timesheetItem list \<Rightarrow> nat" where
  "itemCount shiftId its = length (filter (\<lambda>i. it_shiftId i = shiftId) its)"

definition sheetItemCount :: "ObjectId \<Rightarrow> date \<Rightarrow> ObjectId \<Rightarrow> db \<Rightarrow> nat" where
  "sheetItemCount trainerId weekStart shiftId d =
     (case findSheet trainerId weekStart d of
        None \<Rightarrow> 0
      | Some ts \<Rightarrow> itemCount shiftId (ts_items ts))"

definition upsertItems :: "timesheetItem \<Rightarrow> timesheetItem list \<Rightarrow> timesheetItem list" where
  \<comment> \<open>The replace-or-append step of the upsert followed by its backfill.\<close>
  "upsertItems item its =
     map backfillHours
       (case findIndex (\<lambda>i. it_shiftId i = it_shiftId item) its of
          Some idx \<Rightarrow> its[idx := item]
        | None \<Rightarrow> its @ [item])"

definition newItem :: "upsertArgs \<Rightarrow> timesheetItem" where
  "newItem a =
     (let km = orElse (ua_km a) 0;
          kmRateCents = orElse (ua_kmRateCents a) 0;
          hours = ua_minutes a / 60;
          amountCents = Math_round (hours * ua_hourlyRateCents a);
          mileageCents = Math_round (km * kmRateCents)
      in \<lparr> it_shiftId = ua_shiftId a,
           it_participantId = ua_participantId a,
           it_date = ua_date a,
           it_service = ua_service a,
           it_minutes = Some (ua_minutes a),
           it_hours = Some hours,
           it_km = Some km,
           it_hourlyRateCents = Some (ua_hourlyRateCents a),
           it_kmRateCents = Some kmRateCents,
           it_amountCents = Some amountCents,
           it_mileageCents = Some mileageCents,
           it_totalCents = Some (amountCents + mileageCents) \<rparr>)"

definition sheetAfter :: "upsertArgs \<Rightarrow> date \<Rightarrow> timesheet \<Rightarrow> timesheet" where
  \<comment> \<open>The sheet as the upsert saves it; \<open>weekEnd\<close> is the end of the week of \<open>ua_date a\<close>.\<close>
  "sheetAfter a weekEnd ts =
     (let items = upsertItems (newItem a) (ts_items ts);
          sum = foldl sumStep sumZero items
      in ts\<lparr> ts_items := items,
              ts_weekEnd := weekEnd,
              ts_totals := (ts_totals ts)\<lparr> tot_hours := acc_hours sum,
                             tot_km := acc_km sum,
                             tot_amountCents := acc_amountCents sum,
                             tot_mileageCents := acc_mileageCents sum,
                             tot_totalCents := acc_amountCents sum + acc_mileageCents sum \<rparr> \<rparr>)"

definition emptySheet :: "ObjectId \<Rightarrow> ObjectId \<Rightarrow> date \<Rightarrow> date \<Rightarrow> timesheet" where
  "emptySheet newId trainerId weekStart weekEnd =
     \<lparr> ts_id = newId, ts_trainerId = trainerId, ts_weekStart = weekStart,
       ts_weekEnd = weekEnd, ts_status = DRAFT, ts_items = [],
       ts_totals = \<lparr> tot_hours = 0, tot_km = 0, tot_amountCents = 0,
                     tot_mileageCents = 0, tot_totalCents = 0 \<rparr>,
       ts_audit = None \<rparr>"


subsection \<open>Clock-out in two parts\<close>

definition clockOutShift :: "date \<Rightarrow> reportInput option \<Rightarrow> shiftRequest \<Rightarrow> shift \<Rightarrow> shift" where
  \<comment> \<open>The shift as clock-out saves and returns it: the document with audit time, report and
      billing snapshot, reduced to the paths of the schema.\<close>
  "clockOutShift now report r sh =
     shift_toObject
      (sh\<lparr> sh_actualClockOut := Some (if now > sh_scheduledEnd sh then sh_scheduledEnd sh else now),
           sh_status := SHIFT_COMPLETED,
           sh_report := Some \<lparr> rp_activities = orElse (Option.bind report ri_activities) [],
                               rp_progress = orElse (Option.bind report ri_progress) [],
                               rp_incidents = orElse (Option.bind report ri_incidents) [],
                               rp_km = (case Option.bind report ri_km of
                                          Some (Num k) \<Rightarrow> Some k | _ \<Rightarrow> None) \<rparr>,
           sh_billing := Some \<lparr> bl_billableMinutes = minutesBetween (sr_start r) (sr_end r),
                                bl_hourlyRateCents = 6500,
                                bl_kmRateCents = 85,
                                bl_source = ''ShiftRequest'',
                                bl_scheduledStart = sr_start r,
                                bl_scheduledEnd = sr_end r \<rparr> \<rparr>)"

definition clockOutUpsertArgs :: "number \<Rightarrow> shiftRequest \<Rightarrow> shift \<Rightarrow> upsertArgs" where
  \<comment> \<open>The arguments with which clock-out calls the timesheet upsert, for a numeric \<open>km\<close>.\<close>
  "clockOutUpsertArgs km r sh =
     \<lparr> ua_trainerId = sh_trainerId sh,
       ua_participantId = sh_participantId sh,
       ua_shiftId = sh_id sh,
       ua_service = sh_service sh,
       ua_date = sr_end r,
       ua_minutes = minutesBetween (sr_start r) (sr_end r),
       ua_km = Some km,
       ua_hourlyRateCents = 6500,
       ua_kmRateCents = Some 85 \<rparr>"

subsection \<open>A worked example\<close>

text \<open>
  The scenario of the specification: a participant asks for personal care from 09:00 to
  11:00 on Monday 2025-11-03, an administrator assigns trainer T, who clocks in at
  09:15 and clocks out at 11:20 with 12 km. Times are given by hour and minute of that day.
\<close>

definition hm :: "int \<Rightarrow> int \<Rightarrow> date" where
  "hm hh mm = 1762128000000 + (hh * 60 + mm) * 60000"

definition userP :: ObjectId where "userP = ''aaaaaaaaaaaaaaaaaaaaaaa1''"
definition userT :: ObjectId where "userT = ''aaaaaaaaaaaaaaaaaaaaaaa2''"
definition adminA :: ObjectId where "adminA = ''aaaaaaaaaaaaaaaaaaaaaaa3''"
definition trainerT :: ObjectId where "trainerT = ''bbbbbbbbbbbbbbbbbbbbbbb1''"
definition profileP :: ObjectId where "profileP = ''ccccccccccccccccccccccc1''"
definition request1 :: ObjectId where "request1 = ''ddddddddddddddddddddddd1''"
definition shift1 :: ObjectId where "shift1 = ''eeeeeeeeeeeeeeeeeeeeeee1''"
definition shift2 :: ObjectId where "shift2 = ''eeeeeeeeeeeeeeeeeeeeeee2''"
definition sheet1 :: ObjectId where "sheet1 = ''fffffffffffffffffffffff1''"
definition sheet2 :: ObjectId where "sheet2 = ''fffffffffffffffffffffff2''"

definition db0 :: db where
  "db0 = \<lparr> users = [\<lparr>u_id = userP, u_email = ''p@example.org'', u_role = PARTICIPANT, u_status = ACTIVE\<rparr>,
                     \<lparr>u_id = userT, u_email = ''t@example.org'', u_role = TRAINER, u_status = ACTIVE\<rparr>],
            trainers = [\<lparr>t_id = trainerT, t_userId = userT, t_status = ''APPROVED''\<rparr>],
            participants = [\<lparr>p_id = profileP, p_userId = userP\<rparr>],
            shiftRequests = [], shifts = [], timesheets = [] \<rparr>"

definition upsertA :: upsertArgs where
  "upsertA = \<lparr> ua_trainerId = trainerT, ua_participantId = userP, ua_shiftId = shift1,
               ua_service = ''PersonalCare'', ua_date = hm 11 0, ua_minutes = 120,
               ua_km = Some 12, ua_hourlyRateCents = 6500, ua_kmRateCents = Some 85 \<rparr>"

definition upsertB :: upsertArgs where
  "upsertB = upsertA\<lparr>ua_shiftId := shift2, ua_minutes := 45, ua_km := None\<rparr>"

definition upsertA' :: upsertArgs where
  "upsertA' = upsertA\<lparr>ua_minutes := 90, ua_km := Some (7 / 2)\<rparr>"

definition upsertCalls :: "(ObjectId \<times> upsertArgs) list" where
  "upsertCalls = [(sheet1, upsertA), (sheet2, upsertB), (sheet2, upsertA')]"

definition payload1 :: createShiftRequestInput where
  "payload1 = \<lparr> ci_participantId = userP, ci_requestedBy = userP, ci_service = ''PersonalCare'',
                ci_start = ValidDate (hm 9 0), ci_end = ValidDate (hm 11 0), ci_notes = None,
                ci_preferredTrainerIds = [] \<rparr>"

definition db1 :: db where
  "db1 = snd (createShiftRequest (hm 8 0) request1 payload1 (Some PARTICIPANT) db0)"

definition db2 :: db where
  "db2 = snd (approveAndAssign (hm 8 30) request1 trainerT adminA db1)"

definition db3 :: db where
  "db3 = snd (clockInShiftAsTrainer (hm 9 15) shift1 userT request1 db2)"

definition report1 :: reportInput where
  "report1 = \<lparr> ri_activities = Some ''walk'', ri_progress = None, ri_incidents = None,
               ri_km = Some (Num 12) \<rparr>"

definition db4 :: db where
  "db4 = snd (clockOutShiftAsTrainer (hm 11 20) sheet1 userT request1 (Some report1) db3)"

definition dbEarly :: db where
  \<comment> \<open>The trainer clocks out early instead, at 10:30.\<close>
  "dbEarly = snd (clockOutShiftAsTrainer (hm 10 30) sheet1 userT request1 (Some report1) db3)"

definition clockOutAgain :: "(error + shift \<times> timesheet) \<times> db" where
  \<comment> \<open>A second clock-out for the completed shift, at 11:40 with 5 km.\<close>
  "clockOutAgain = clockOutShiftAsTrainer (hm 11 40) sheet2 userT request1
     (Some (report1\<lparr>ri_km := Some (Num 5)\<rparr>)) dbEarly"

definition clockOutAgainNaN :: "(error + shift \<times> timesheet) \<times> db" where
  \<comment> \<open>The same with a \<open>km\<close> entry that is not numeric.\<close>
  "clockOutAgainNaN = clockOutShiftAsTrainer (hm 11 40) sheet2 userT request1
     (Some (report1\<lparr>ri_km := Some NaN\<rparr>)) dbEarly"

definition db1_blocked :: db where
  \<comment> \<open>The store after the request was created, with the trainer's user blocked.\<close>
  "db1_blocked = db1\<lparr>users := [\<lparr>u_id = userT, u_email = ''t@example.org'', u_role = TRAINER,
                                  u_status = BLOCKED\<rparr>]\<rparr>"

definition db1_pending :: db where
  \<comment> \<open>The store after the request was created, the trainer's profile having the status
      that the profile schema gives a new profile.\<close>
  "db1_pending = db1\<lparr>trainers := [\<lparr>t_id = trainerT, t_userId = userT, t_status = ''pending''\<rparr>]\<rparr>"

definition db1_PENDING :: db where
  \<comment> \<open>The same with the status in upper case.\<close>
  "db1_PENDING = db1\<lparr>trainers := [\<lparr>t_id = trainerT, t_userId = userT, t_status = ''PENDING''\<rparr>]\<rparr>"

definition approveFirst :: "(error + shiftRequest) \<times> db" where
  "approveFirst = approveAndAssign (hm 8 30) request1 trainerT adminA db1"

definition approveSecond :: "(error + shiftRequest) \<times> db" where
  "approveSecond = approveAndAssign (hm 8 45) request1 trainerT adminA db2"

definition approvePending :: "(error + shiftRequest) \<times> db" where
  "approvePending = approveAndAssign (hm 8 30) request1 trainerT adminA db1_pending"

definition approveUpperPending :: "(error + shiftRequest) \<times> db" where
  "approveUpperPending = approveAndAssign (hm 8 30) request1 trainerT adminA db1_PENDING"

definition approveBlocked :: "(error + shiftRequest) \<times> db" where
  "approveBlocked = approveAndAssign (hm 8 30) request1 trainerT adminA db1_blocked"

definition db5 :: db where
  \<comment> \<open>The trainer submits the week's sheet.\<close>
  "db5 = snd (submitTimesheet sheet1 userT db4)"

definition db6 :: db where
  \<comment> \<open>The administrator approves it.\<close>
  "db6 = snd (approveTimesheet sheet1 adminA db5)"

definition reopenSubmitted :: "(error + timesheet) \<times> db" where
  \<comment> \<open>The administrator reopens the submitted sheet instead, giving a reason.\<close>
  "reopenSubmitted = reopenTimesheet (hm 18 0) sheet1 adminA (Some ''km missing'') db5"






definition dbA :: db where
  \<comment> \<open>The example store after the first upsert for shift 1.\<close>
  "dbA = snd (upsertTimesheetForShift sheet1 upsertA db0)"

section \<open>Verified properties\<close>

subsection \<open>The upsert, step by step\<close>

lemma newItem_shiftId [simp]: "it_shiftId (newItem a) = ua_shiftId a"
  by (simp add: newItem_def Let_def)

lemma upsert_invalid:
  assumes "startOfWeekUTC (ua_date a) = None \<or> endOfWeekUTC (startOfWeekUTC (ua_date a)) = None"
  shows "upsertTimesheetForShift newId a d = (Inl (Thrown ''CastError''), d)"
  using assms
  by (auto simp: upsertTimesheetForShift_def Let_def split: option.splits)

lemma upsert_found:
  assumes "startOfWeekUTC (ua_date a) = Some W" "endOfWeekUTC (Some W) = Some E"
    and "findSheet (ua_trainerId a) W d = Some ts"
  shows "upsertTimesheetForShift newId a d =
           (Inr (sheetAfter a E ts), d\<lparr>timesheets := saveDoc ts_id (sheetAfter a E ts) (timesheets d)\<rparr>)"
  using assms
  by (simp add: upsertTimesheetForShift_def findOneAndUpsertTimesheet_def findSheet_def
      sheetAfter_def upsertItems_def newItem_def Let_def)

lemma upsert_absent_taken:
  assumes "startOfWeekUTC (ua_date a) = Some W" "endOfWeekUTC (Some W) = Some E"
    and "findSheet (ua_trainerId a) W d = None"
    and "idTaken ts_id newId (timesheets d)"
  shows "upsertTimesheetForShift newId a d = (Inl duplicateKey, d)"
  using assms
  by (simp add: upsertTimesheetForShift_def findOneAndUpsertTimesheet_def findSheet_def Let_def)

lemma upsert_absent_fresh:
  assumes "startOfWeekUTC (ua_date a) = Some W" "endOfWeekUTC (Some W) = Some E"
    and "findSheet (ua_trainerId a) W d = None"
    and "\<not> idTaken ts_id newId (timesheets d)"
  shows "upsertTimesheetForShift newId a d =
           (let ts = emptySheet newId (ua_trainerId a) W E
            in (Inr (sheetAfter a E ts),
                d\<lparr>timesheets := saveDoc ts_id (sheetAfter a E ts) (timesheets d @ [ts])\<rparr>))"
  using assms
  by (simp add: upsertTimesheetForShift_def findOneAndUpsertTimesheet_def findSheet_def
      sheetAfter_def upsertItems_def newItem_def emptySheet_def Let_def)

lemma upsert_cases:
  obtains (invalid)
      "startOfWeekUTC (ua_date a) = None \<or> endOfWeekUTC (startOfWeekUTC (ua_date a)) = None"
      "upsertTimesheetForShift newId a d = (Inl (Thrown ''CastError''), d)"
  | (found) W E ts where "startOfWeekUTC (ua_date a) = Some W" "endOfWeekUTC (Some W) = Some E"
      "findSheet (ua_trainerId a) W d = Some ts"
      "upsertTimesheetForShift newId a d =
         (Inr (sheetAfter a E ts), d\<lparr>timesheets := saveDoc ts_id (sheetAfter a E ts) (timesheets d)\<rparr>)"
  | (taken) W E where "startOfWeekUTC (ua_date a) = Some W" "endOfWeekUTC (Some W) = Some E"
      "findSheet (ua_trainerId a) W d = None" "idTaken ts_id newId (timesheets d)"
      "upsertTimesheetForShift newId a d = (Inl duplicateKey, d)"
  | (fresh) W E where "startOfWeekUTC (ua_date a) = Some W" "endOfWeekUTC (Some W) = Some E"
      "findSheet (ua_trainerId a) W d = None" "\<not> idTaken ts_id newId (timesheets d)"
      "upsertTimesheetForShift newId a d =
         (Inr (sheetAfter a E (emptySheet newId (ua_trainerId a) W E)),
          d\<lparr>timesheets := saveDoc ts_id (sheetAfter a E (emptySheet newId (ua_trainerId a) W E))
                            (timesheets d @ [emptySheet newId (ua_trainerId a) W E])\<rparr>)"
proof (cases "startOfWeekUTC (ua_date a)")
  case None
  then have "startOfWeekUTC (ua_date a) = None \<or> endOfWeekUTC (startOfWeekUTC (ua_date a)) = None"
    by simp
  from this upsert_invalid[OF this] show ?thesis by (rule invalid)
next
  case W: (Some W)
  show ?thesis
  proof (cases "endOfWeekUTC (Some W)")
    case None
    with W have "startOfWeekUTC (ua_date a) = None \<or> endOfWeekUTC (startOfWeekUTC (ua_date a)) = None"
      by simp
    from this upsert_invalid[OF this] show ?thesis by (rule invalid)
  next
    case E: (Some E)
    show ?thesis
    proof (cases "findSheet (ua_trainerId a) W d")
      case (Some ts)
      from W E Some upsert_found[OF W E Some] show ?thesis by (rule found)
    next
      case None
      show ?thesis
      proof (cases "idTaken ts_id newId (timesheets d)")
        case True
        from W E None True upsert_absent_taken[OF W E None True] show ?thesis by (rule taken)
      next
        case False
        from W E None False upsert_absent_fresh[OF W E None False, unfolded Let_def]
        show ?thesis by (rule fresh)
      qed
    qed
  qed
qed



lemma backfillHours_fields [simp]:
  "it_shiftId (backfillHours i) = it_shiftId i"
  "it_km (backfillHours i) = it_km i"
  "it_minutes (backfillHours i) = it_minutes i"
  "it_amountCents (backfillHours i) = it_amountCents i"
  "it_mileageCents (backfillHours i) = it_mileageCents i"
  "it_totalCents (backfillHours i) = it_totalCents i"
  "it_hours (backfillHours i) \<noteq> None"
  by (simp_all add: backfillHours_def)



lemma backfillHours_consistent [simp]: "itemConsistent (backfillHours i) = itemConsistent i"
  by (simp add: itemConsistent_def)

lemma newItem_consistent [simp]: "itemConsistent (newItem a)"
  by (simp add: itemConsistent_def newItem_def Let_def)

lemma list_all_update: "list_all P xs \<Longrightarrow> P x \<Longrightarrow> list_all P (xs[n := x])"
  by (induction xs arbitrary: n) (auto split: nat.splits)




lemma sheetAfter_items: "ts_items (sheetAfter a E ts) = upsertItems (newItem a) (ts_items ts)"
  by (simp add: sheetAfter_def Let_def)


lemma list_all_saveDoc: "list_all P coll \<Longrightarrow> P x \<Longrightarrow> list_all P (saveDoc idOf x coll)"
  by (auto simp: saveDoc_def list_all_iff)

lemma find_Some_set: "find P xs = Some x \<Longrightarrow> x \<in> set xs \<and> P x"
  by (induction xs) (auto split: if_splits)

lemma emptySheet_items [simp]: "ts_items (emptySheet i t w e) = []"
  by (simp add: emptySheet_def)



section \<open>C8: the week bucket\<close>

lemma days_div [simp]: "(msPerDay * n) div msPerDay = n"
  by (simp add: msPerDay_def)

lemma TimeClip_Some: "- maxTime \<le> t \<Longrightarrow> t \<le> maxTime \<Longrightarrow> TimeClip t = Some t"
  by (simp add: TimeClip_def abs_le_iff)

lemma utcDateOnly_plain: "twoDigitYear d = None \<Longrightarrow> utcDateOnly d = msPerDay * (d div msPerDay)"
  by (simp add: utcDateOnly_def Let_def)

lemma day_bounds:
  assumes "- maxTime + 6 * msPerDay \<le> d" "d \<le> maxTime - 7 * msPerDay"
  shows "- 99999994 \<le> d div msPerDay" "d div msPerDay \<le> 99999993"
proof -
  have "(- maxTime + 6 * msPerDay) div msPerDay \<le> d div msPerDay"
    using assms(1) by (intro zdiv_mono1) (simp_all add: msPerDay_def)
  then show "- 99999994 \<le> d div msPerDay"
    by (simp add: maxTime_def msPerDay_def)
  have "d div msPerDay \<le> (maxTime - 7 * msPerDay) div msPerDay"
    using assms(2) by (intro zdiv_mono1) (simp_all add: msPerDay_def)
  then show "d div msPerDay \<le> 99999993"
    by (simp add: maxTime_def msPerDay_def)
qed

lemma week_in_range:
  assumes "- 99999994 \<le> n" "n \<le> 99999993" "0 \<le> k" "k \<le> 6"
  shows "TimeClip (msPerDay * (n - k)) = Some (msPerDay * (n - k))"
    and "TimeClip (msPerDay * (n - k) + 6 * msPerDay) = Some (msPerDay * (n - k) + 6 * msPerDay)"
    and "TimeClip (msPerDay * (n - k) + 6 * msPerDay + 86399999)
           = Some (msPerDay * (n - k) + 6 * msPerDay + 86399999)"
  using assms by (simp_all add: TimeClip_def maxTime_def msPerDay_def abs_le_iff)

lemma startOfWeekUTC_days:
  assumes "twoDigitYear d = None" "- maxTime + 6 * msPerDay \<le> d" "d \<le> maxTime - 7 * msPerDay"
  shows "startOfWeekUTC d = Some (msPerDay * (d div msPerDay - (d div msPerDay + 3) mod 7))"
proof -
  define n where "n = d div msPerDay"
  define k where "k = (n + 3) mod 7"
  have k: "0 \<le> k" "k \<le> 6"
    by (simp_all add: k_def)
  have dow: "((n + 4) mod 7 + 6) mod 7 = k"
    unfolding k_def by presburger
  have shift: "msPerDay * n - k * msPerDay = msPerDay * (n - k)"
    by (simp add: algebra_simps)
  note clip = week_in_range(1)[OF day_bounds[OF assms(2,3), folded n_def] k]
  have "startOfWeekUTC d
      = Option.bind (TimeClip (msPerDay * (n - k))) (\<lambda>x. TimeClip (msPerDay * (x div msPerDay)))"
    by (simp add: startOfWeekUTC_def utcDateOnly_plain[OF assms(1)] getUTCDay_def addUTCDate_def
        setUTCHours_def Let_def n_def[symmetric] dow shift)
  also have "\<dots> = Some (msPerDay * (n - k))"
    by (simp add: clip)
  finally show ?thesis
    by (simp add: n_def k_def)
qed

lemma startOfWeekUTC_util_days:
  assumes "twoDigitYear d = None" "- maxTime + 6 * msPerDay \<le> d" "d \<le> maxTime - 7 * msPerDay"
  shows "startOfWeekUTC_util d = Some (msPerDay * (d div msPerDay - (d div msPerDay + 3) mod 7))"
proof -
  define n where "n = d div msPerDay"
  define k where "k = (n + 3) mod 7"
  have k: "0 \<le> k" "k \<le> 6"
    by (simp_all add: k_def)
  note clip = week_in_range(1)[OF day_bounds[OF assms(2,3), folded n_def] k]
  have a: "(n + 4) mod 7 = 0 \<Longrightarrow> k = 6"
    and b: "(n + 4) mod 7 \<noteq> 0 \<Longrightarrow> k = (n + 4) mod 7 - 1"
    unfolding k_def by presburger+
  have c: "msPerDay * n + (1 - (n + 4) mod 7) * msPerDay = msPerDay * (n - ((n + 4) mod 7 - 1))"
    by (simp add: algebra_simps)
  have e: "msPerDay * n - 6 * msPerDay = msPerDay * (n - 6)"
    by (simp add: algebra_simps)
  show ?thesis
  proof (cases "(n + 4) mod 7 = 0")
    case True
    with a clip e show ?thesis
      unfolding n_def[symmetric] k_def[symmetric]
      by (simp add: startOfWeekUTC_util_def utcDateOnly_plain[OF assms(1)] getUTCDay_def
          addUTCDate_def Let_def n_def[symmetric])
  next
    case False
    note nz = this
    show ?thesis
    proof (cases "(n + 4) mod 7 = 1")
      case True
      then have "k = 0"
        using b by simp
      with True show ?thesis
        unfolding n_def[symmetric] k_def[symmetric]
        by (simp add: startOfWeekUTC_util_def utcDateOnly_plain[OF assms(1)] getUTCDay_def
            Let_def n_def[symmetric])
    next
      case False
      have "0 \<le> (n + 4) mod 7"
        by simp
      with nz False have gt: "1 < (n + 4) mod 7"
        by linarith
      from b[OF nz] clip c gt nz show ?thesis
        unfolding n_def[symmetric] k_def[symmetric]
        by (simp add: startOfWeekUTC_util_def utcDateOnly_plain[OF assms(1)] getUTCDay_def
            addUTCDate_def Let_def n_def[symmetric])
    qed
  qed
qed

lemma endOfWeekUTC_days:
  assumes "- 99999994 \<le> n" "n \<le> 99999993" "0 \<le> k" "k \<le> 6"
  shows "endOfWeekUTC (Some (msPerDay * (n - k)))
           = Some (msPerDay * (n - k) + 6 * msPerDay + 86399999)"
    and "endOfWeekUTC_util (Some (msPerDay * (n - k)))
           = Some (msPerDay * (n - k) + 6 * msPerDay + 86399999)"
proof -
  have d: "(msPerDay * (n - k) + 6 * msPerDay) div msPerDay = n - k + 6"
    by (simp add: msPerDay_def)
  have m: "msPerDay * (n - k + 6) = msPerDay * (n - k) + 6 * msPerDay"
    by (simp add: algebra_simps)
  have h: "setUTCHours (msPerDay * (n - k) + 6 * msPerDay) 23 59 59 999
      = TimeClip (msPerDay * (n - k) + 6 * msPerDay + 86399999)"
    unfolding setUTCHours_def d m by (simp add: ac_simps)
  show "endOfWeekUTC (Some (msPerDay * (n - k)))
           = Some (msPerDay * (n - k) + 6 * msPerDay + 86399999)"
    unfolding endOfWeekUTC_def addUTCDate_def
    by (simp only: Option.bind.simps week_in_range(2,3)[OF assms] h)
  show "endOfWeekUTC_util (Some (msPerDay * (n - k)))
           = Some (msPerDay * (n - k) + 6 * msPerDay + 86399999)"
    unfolding endOfWeekUTC_util_def addUTCDate_def
    by (simp only: Option.bind.simps week_in_range(2,3)[OF assms] h)
qed

lemma DayFromYear_mono_step: "DayFromYear y \<le> DayFromYear (y + 1)"
proof -
  define a where "a = (y - 1969) div 4"
  define a' where "a' = (y - 1968) div 4"
  define b where "b = (y - 1901) div 100"
  define b' where "b' = (y - 1900) div 100"
  define c where "c = (y - 1601) div 400"
  define c' where "c' = (y - 1600) div 400"
  have 1: "a \<le> a'"
    unfolding a_def a'_def by (rule zdiv_mono1) simp_all
  have "b' \<le> (y - 1901 + 100) div 100"
    unfolding b'_def by (rule zdiv_mono1) simp_all
  also have "\<dots> = b + 1"
    unfolding b_def by simp
  finally have 2: "b' \<le> b + 1" .
  have 3: "c \<le> c'"
    unfolding c_def c'_def by (rule zdiv_mono1) simp_all
  have y: "DayFromYear y = 365 * (y - 1970) + a - b + c"
    by (simp only: DayFromYear_def a_def b_def c_def)
  have "y + 1 - 1970 = y - 1969" "y + 1 - 1969 = y - 1968" "y + 1 - 1901 = y - 1900"
    "y + 1 - 1601 = y - 1600"
    by simp_all
  then have y1: "DayFromYear (y + 1) = 365 * (y - 1969) + a' - b' + c'"
    by (simp only: DayFromYear_def a'_def b'_def c'_def)
  have "365 * (y - 1970) + a - b + c \<le> 365 * (y - 1969) + a' - b' + c'"
    using 1 2 3 by (simp add: algebra_simps)
  then show ?thesis
    by (simp only: y y1)
qed


lemma DayFromYear_mono: "y \<le> z \<Longrightarrow> DayFromYear y \<le> DayFromYear z"
proof (induction z rule: int_ge_induct)
  case base
  show ?case by simp
next
  case (step i)
  from step.IH DayFromYear_mono_step[of i] show ?case
    by (rule order_trans)
qed

lemma twoDigitYear_None:
  assumes "d div msPerDay < DayFromYear 0 \<or> DayFromYear 100 \<le> d div msPerDay"
  shows "twoDigitYear d = None"
proof -
  have "\<not> (DayFromYear y \<le> d div msPerDay \<and> d div msPerDay < DayFromYear (y + 1))"
    if "y \<in> {0..99}" for y
  proof -
    from that have "0 \<le> y" "y + 1 \<le> 100"
      by simp_all
    then have "DayFromYear 0 \<le> DayFromYear y" "DayFromYear (y + 1) \<le> DayFromYear 100"
      by (simp_all only: DayFromYear_mono)
    with assms show ?thesis
      by linarith
  qed
  then have "\<not> (\<exists>y. y \<in> set [0..99]
      \<and> DayFromYear y \<le> d div msPerDay \<and> d div msPerDay < DayFromYear (y + 1))"
    unfolding set_upto by blast
  then show ?thesis
    unfolding twoDigitYear_def find_None_iff .
qed

lemma day_lt: "d < c * msPerDay \<Longrightarrow> d div msPerDay < c"
  by (simp add: msPerDay_def div_less_iff_less_mult)

lemma day_ge: "c * msPerDay \<le> d \<Longrightarrow> c \<le> d div msPerDay"
  by (simp add: msPerDay_def less_eq_div_iff_mult_less_eq)

text \<open>
  C8, as the code has it. The claim does not hold for every input date. At the last time
  value (day 100 000 000 of the epoch, a Saturday) the week starts five days earlier, but
  its end lies past the range of time values: \<open>endOfWeekUTC\<close> returns the Invalid Date.
  And for a date of the years 0 to 99, here 0050-06-15, \<open>Date.UTC\<close> reads the year as
  1950, so the week start is Monday 1950-06-12, which is after the date.
\<close>

theorem week_bucket_counterexample:
  "startOfWeekUTC 8640000000000000 = Some 8639999568000000
   \<and> endOfWeekUTC (startOfWeekUTC 8640000000000000) = None
   \<and> startOfWeekUTC (- 60575040000000) = Some (- 617155200000)
   \<and> - 60575040000000 < (- 617155200000 :: int)"
  by code_simp

text \<open>
  C8, amended. For every date whose year is not one of 0 to 99 and which lies at least
  seven days inside the range of time values, \<open>startOfWeekUTC\<close> is a Monday at
  00:00:00.000 UTC that is not after the date, \<open>endOfWeekUTC\<close> of it is six days and
  23:59:59.999 later, and the date is not after that end. The helper of the shift request
  service and the one in \<open>utils/time-money.ts\<close> compute the same bucket. Every date before
  the year 0 or from the year 100 on has a year that is not one of 0 to 99.
\<close>

theorem week_bucket:
  "(twoDigitYear d = None \<and> \<bar>d\<bar> \<le> maxTime - 7 * msPerDay
    \<longrightarrow> (\<exists>ws we. startOfWeekUTC d = Some ws
          \<and> endOfWeekUTC (Some ws) = Some we
          \<and> getUTCDay ws = 1
          \<and> ws mod msPerDay = 0
          \<and> ws \<le> d
          \<and> we = ws + 6 * msPerDay + 86399999
          \<and> d \<le> we
          \<and> startOfWeekUTC_util d = Some ws
          \<and> endOfWeekUTC_util (Some ws) = Some we))
   \<and> (d < DayFromYear 0 * msPerDay \<or> DayFromYear 100 * msPerDay \<le> d
    \<longrightarrow> twoDigitYear d = None)"
proof (intro conjI impI)
  assume a: "twoDigitYear d = None \<and> \<bar>d\<bar> \<le> maxTime - 7 * msPerDay"
  define n where "n = d div msPerDay"
  define r where "r = d mod msPerDay"
  define k where "k = (n + 3) mod 7"
  define ws where "ws = msPerDay * (n - k)"
  have d: "d = msPerDay * n + r"
    by (simp add: n_def r_def)
  have r: "0 \<le> r" "r < msPerDay"
    by (simp_all add: r_def msPerDay_def)
  have k: "0 \<le> k" "k \<le> 6"
    by (simp_all add: k_def)
  from a have "\<bar>d\<bar> \<le> maxTime - 7 * msPerDay"
    by simp
  then have lo: "- maxTime + 6 * msPerDay \<le> d" and hi: "d \<le> maxTime - 7 * msPerDay"
    unfolding maxTime_def msPerDay_def by linarith+
  note nb = day_bounds[OF lo hi, folded n_def]
  have s: "startOfWeekUTC d = Some ws"
    using a lo hi by (simp add: startOfWeekUTC_days ws_def n_def k_def)
  have u: "startOfWeekUTC_util d = Some ws"
    using a lo hi by (simp add: startOfWeekUTC_util_days ws_def n_def k_def)
  have e: "endOfWeekUTC (Some ws) = Some (ws + 6 * msPerDay + 86399999)"
    and ue: "endOfWeekUTC_util (Some ws) = Some (ws + 6 * msPerDay + 86399999)"
    unfolding ws_def by (rule endOfWeekUTC_days[OF nb k])+
  have monday: "getUTCDay ws = 1"
    unfolding ws_def getUTCDay_def days_div k_def by presburger
  have midnight: "ws mod msPerDay = 0"
    unfolding ws_def by simp
  have "msPerDay * (n - k) \<le> msPerDay * n + r"
    using r k by (simp add: msPerDay_def)
  then have le: "ws \<le> d"
    using d by (simp add: ws_def)
  have "msPerDay * n + r \<le> msPerDay * (n - k) + 6 * msPerDay + 86399999"
    using r k by (simp add: msPerDay_def)
  then have ge: "d \<le> ws + 6 * msPerDay + 86399999"
    using d by (simp add: ws_def)
  from s e monday midnight le ge u ue
  show "\<exists>ws we. startOfWeekUTC d = Some ws
          \<and> endOfWeekUTC (Some ws) = Some we
          \<and> getUTCDay ws = 1
          \<and> ws mod msPerDay = 0
          \<and> ws \<le> d
          \<and> we = ws + 6 * msPerDay + 86399999
          \<and> d \<le> we
          \<and> startOfWeekUTC_util d = Some ws
          \<and> endOfWeekUTC_util (Some ws) = Some we"
    by (intro exI[of _ ws] exI[of _ "ws + 6 * msPerDay + 86399999"]) simp
next
  assume a: "d < DayFromYear 0 * msPerDay \<or> DayFromYear 100 * msPerDay \<le> d"
  then have "d div msPerDay < DayFromYear 0 \<or> DayFromYear 100 \<le> d div msPerDay"
    using day_lt[of d "DayFromYear 0"] day_ge[of "DayFromYear 100" d] by blast
  then show "twoDigitYear d = None"
    by (rule twoDigitYear_None)
qed

theorem week_bucket_witness:
  "twoDigitYear (hm 11 0) = None
   \<and> startOfWeekUTC (hm 11 0) = Some (hm 0 0)
   \<and> endOfWeekUTC (Some (hm 0 0)) = Some (hm 0 0 + 6 * msPerDay + 86399999)
   \<and> getUTCDay (hm 0 0) = 1
   \<and> hm 0 0 \<le> hm 11 0"
proof -
  have h: "twoDigitYear (hm 11 0) = None \<and> \<bar>hm 11 0\<bar> \<le> maxTime - 7 * msPerDay"
    by code_simp
  have y: "hm 11 0 < DayFromYear 0 * msPerDay \<or> DayFromYear 100 * msPerDay \<le> hm 11 0"
    by code_simp
  from week_bucket[of "hm 11 0", THEN conjunct1, rule_format, OF h]
  obtain ws we where w: "startOfWeekUTC (hm 11 0) = Some ws" "endOfWeekUTC (Some ws) = Some we"
    "getUTCDay ws = 1" "ws \<le> hm 11 0" "we = ws + 6 * msPerDay + 86399999"
    by blast
  have "startOfWeekUTC (hm 11 0) = Some (hm 0 0)"
    by code_simp
  with w have "ws = hm 0 0"
    by simp
  with w week_bucket[of "hm 11 0", THEN conjunct2, rule_format, OF y] show ?thesis
    by simp
qed

section \<open>Lookups and saves\<close>

lemma findById_Some: "findById idOf i coll = Some x \<Longrightarrow> x \<in> set coll \<and> idOf x = i"
  unfolding findById_def by (induction coll) (auto split: if_splits)

lemma findById_None: "findById idOf i coll = None \<longleftrightarrow> \<not> idTaken idOf i coll"
  unfolding findById_def idTaken_def by (induction coll) auto

lemma findById_saveDoc:
  "findById idOf i (saveDoc idOf x coll) =
     (if i = idOf x then (if idTaken idOf i coll then Some x else None) else findById idOf i coll)"
  unfolding findById_def saveDoc_def idTaken_def by (induction coll) auto


lemma idTaken_saveDoc [simp]:
  "idTaken idOf i (saveDoc idOf x coll) = idTaken idOf i coll"
  unfolding saveDoc_def idTaken_def by (induction coll) auto

lemma idTaken_append [simp]:
  "idTaken idOf i (coll @ [x]) = (idTaken idOf i coll \<or> idOf x = i)"
  unfolding idTaken_def by (induction coll) auto

lemma findById_idTaken: "findById idOf i coll = Some x \<Longrightarrow> idTaken idOf i coll"
  using findById_None[of idOf i coll] by auto


section \<open>C5: creating a request\<close>

lemma validateRequestWindow_ok:
  "s < e \<Longrightarrow> 1800000 \<le> e - s \<Longrightarrow> now \<le> e
     \<Longrightarrow> validateRequestWindow now (Some s) (Some e) = Inr ()"
proof -
  assume a: "s < e" "1800000 \<le> e - s" "now \<le> e"
  from a(2) have "(1800000 :: rat) \<le> of_int (e - s)"
    by (metis of_int_le_iff of_int_numeral)
  then have "\<not> (of_int (e - s) :: rat) / (1000 * 60) < 30"
    by simp
  with a show ?thesis
    by (simp add: validateRequestWindow_def)
qed

lemma validateRequestWindow_bad:
  "s \<ge> e \<or> e < now \<or> e - s < 1800000
     \<Longrightarrow> \<exists>msg. validateRequestWindow now (Some s) (Some e) = Inl (AppError msg 400)"
proof -
  assume a: "s \<ge> e \<or> e < now \<or> e - s < 1800000"
  have "e - s < 1800000 \<Longrightarrow> (of_int (e - s) :: rat) / (1000 * 60) < 30"
  proof -
    assume "e - s < 1800000"
    then have "(of_int (e - s) :: rat) < 1800000"
      by (metis of_int_less_iff of_int_numeral)
    then show ?thesis by simp
  qed
  with a show ?thesis
    by (auto simp: validateRequestWindow_def)
qed

text \<open>
  C5. A payload that names all required fields, whose window has \<open>start < end\<close>, lasts at
  least 30 minutes and does not end before \<open>now\<close>, whose participant resolves to a user
  and whose requester is that participant or an administrator (ids well formed, the new
  document's id free) is stored as a new request with status \<open>PENDING_ADMIN\<close>. A payload
  with \<open>start \<ge> end\<close>, with an end in the past or with a window under 30 minutes is
  refused with status 400 and the store is unchanged, whatever its other fields are.
\<close>

theorem createShiftRequest_window:
  "(ci_participantId p \<noteq> [] \<and> ci_requestedBy p \<noteq> [] \<and> ci_service p \<noteq> []
      \<and> ci_start p = ValidDate s \<and> ci_end p = ValidDate e
      \<and> s < e \<and> 1800000 \<le> e - s \<and> now \<le> e
      \<and> isValidObjectId (ci_participantId p)
      \<and> findById u_id (ci_participantId p) (users d) = Some u
      \<and> (role = Some ADMIN \<or> ci_requestedBy p = ci_participantId p)
      \<and> isValidObjectId (ci_requestedBy p)
      \<and> list_all isValidObjectId (filter (\<lambda>i. i \<noteq> []) (ci_preferredTrainerIds p))
      \<and> \<not> idTaken sr_id newId (shiftRequests d)
    \<longrightarrow> (\<exists>r. createShiftRequest now newId p role d
                = (Inr r, d\<lparr>shiftRequests := shiftRequests d @ [r]\<rparr>)
             \<and> sr_status r = PENDING_ADMIN \<and> sr_id r = newId
             \<and> sr_start r = s \<and> sr_end r = e))
   \<and> (ci_start p = ValidDate s \<and> ci_end p = ValidDate e
        \<and> (s \<ge> e \<or> e < now \<or> e - s < 1800000)
    \<longrightarrow> (\<exists>msg. createShiftRequest now newId p role d = (Inl (AppError msg 400), d)))"
proof (intro conjI impI)
  assume a: "ci_participantId p \<noteq> [] \<and> ci_requestedBy p \<noteq> [] \<and> ci_service p \<noteq> []
      \<and> ci_start p = ValidDate s \<and> ci_end p = ValidDate e
      \<and> s < e \<and> 1800000 \<le> e - s \<and> now \<le> e
      \<and> isValidObjectId (ci_participantId p)
      \<and> findById u_id (ci_participantId p) (users d) = Some u
      \<and> (role = Some ADMIN \<or> ci_requestedBy p = ci_participantId p)
      \<and> isValidObjectId (ci_requestedBy p)
      \<and> list_all isValidObjectId (filter (\<lambda>i. i \<noteq> []) (ci_preferredTrainerIds p))
      \<and> \<not> idTaken sr_id newId (shiftRequests d)"
  then have w: "validateRequestWindow now (Some s) (Some e) = Inr ()"
    by (simp add: validateRequestWindow_ok)
  from a have "u_id u = ci_participantId p"
    by (auto dest: findById_Some)
  with a have o: "ensureParticipantOwnership (ci_participantId p) (ci_requestedBy p) role d = Inr u"
    by (auto simp: ensureParticipantOwnership_def)
  from a w o show "\<exists>r. createShiftRequest now newId p role d
                = (Inr r, d\<lparr>shiftRequests := shiftRequests d @ [r]\<rparr>)
             \<and> sr_status r = PENDING_ADMIN \<and> sr_id r = newId
             \<and> sr_start r = s \<and> sr_end r = e"
    by (simp add: createShiftRequest_def Let_def)
next
  assume a: "ci_start p = ValidDate s \<and> ci_end p = ValidDate e
        \<and> (s \<ge> e \<or> e < now \<or> e - s < 1800000)"
  then obtain msg where "validateRequestWindow now (Some s) (Some e) = Inl (AppError msg 400)"
    using validateRequestWindow_bad by blast
  with a show "\<exists>msg. createShiftRequest now newId p role d = (Inl (AppError msg 400), d)"
    by (simp add: createShiftRequest_def Let_def)
qed


theorem createShiftRequest_window_witness:
  "(\<exists>r. createShiftRequest (hm 8 0) request1 payload1 (Some PARTICIPANT) db0
            = (Inr r, db0\<lparr>shiftRequests := shiftRequests db0 @ [r]\<rparr>)
         \<and> sr_status r = PENDING_ADMIN \<and> sr_id r = request1
         \<and> sr_start r = hm 9 0 \<and> sr_end r = hm 11 0)
   \<and> (\<exists>msg. createShiftRequest (hm 8 0) request1
              (payload1\<lparr>ci_start := ValidDate (hm 11 0), ci_end := ValidDate (hm 9 0)\<rparr>)
              (Some PARTICIPANT) db0 = (Inl (AppError msg 400), db0))"
proof -
  let ?u = "\<lparr>u_id = userP, u_email = ''p@example.org'', u_role = PARTICIPANT, u_status = ACTIVE\<rparr>"
  let ?bad = "payload1\<lparr>ci_start := ValidDate (hm 11 0), ci_end := ValidDate (hm 9 0)\<rparr>"
  have h1: "ci_participantId payload1 \<noteq> [] \<and> ci_requestedBy payload1 \<noteq> []
      \<and> ci_service payload1 \<noteq> []
      \<and> ci_start payload1 = ValidDate (hm 9 0) \<and> ci_end payload1 = ValidDate (hm 11 0)
      \<and> hm 9 0 < hm 11 0 \<and> 1800000 \<le> hm 11 0 - hm 9 0 \<and> hm 8 0 \<le> hm 11 0
      \<and> isValidObjectId (ci_participantId payload1)
      \<and> findById u_id (ci_participantId payload1) (users db0) = Some ?u
      \<and> (Some PARTICIPANT = Some ADMIN \<or> ci_requestedBy payload1 = ci_participantId payload1)
      \<and> isValidObjectId (ci_requestedBy payload1)
      \<and> list_all isValidObjectId (filter (\<lambda>i. i \<noteq> []) (ci_preferredTrainerIds payload1))
      \<and> \<not> idTaken sr_id request1 (shiftRequests db0)"
    by (simp add: payload1_def db0_def userP_def userT_def hm_def isValidObjectId_def
        isHexDigit_def findById_def idTaken_def)
  have h2: "ci_start ?bad = ValidDate (hm 11 0) \<and> ci_end ?bad = ValidDate (hm 9 0)
        \<and> (hm 11 0 \<ge> hm 9 0 \<or> hm 9 0 < hm 8 0 \<or> hm 9 0 - hm 11 0 < 1800000)"
    by (simp add: hm_def)
  from createShiftRequest_window[where p = payload1 and s = "hm 9 0" and e = "hm 11 0"
        and now = "hm 8 0" and d = db0 and u = ?u and role = "Some PARTICIPANT"
        and newId = request1, THEN conjunct1, rule_format, OF h1]
    createShiftRequest_window[where p = ?bad and s = "hm 11 0" and e = "hm 9 0"
        and now = "hm 8 0" and d = db0 and role = "Some PARTICIPANT"
        and newId = request1, THEN conjunct2, rule_format, OF h2]
  show ?thesis
    by simp
qed

section \<open>C6: approving and assigning\<close>

lemma shiftRequest_toObject_fields [simp]:
  "sr_id (shiftRequest_toObject r) = sr_id r"
  "sr_status (shiftRequest_toObject r) = sr_status r"
  "sr_assignedTrainerId (shiftRequest_toObject r) = sr_assignedTrainerId r"
  "sr_linkedShiftId (shiftRequest_toObject r) = sr_linkedShiftId r"
  "sr_start (shiftRequest_toObject r) = sr_start r"
  "sr_end (shiftRequest_toObject r) = sr_end r"
  "sr_approvedBy (shiftRequest_toObject r) = None"
  "sr_approvedAt (shiftRequest_toObject r) = None"
  "sr_declinedReason (shiftRequest_toObject r) = None"
  by (simp_all add: shiftRequest_toObject_def)

text \<open>
  What \<open>approveAndAssign\<close> does by its guards. When it succeeds, the request was
  \<open>PENDING_ADMIN\<close>; the returned document has status \<open>APPROVED\<close>, \<open>assignedTrainerId\<close>,
  \<open>approvedBy\<close> and \<open>approvedAt\<close>; the stored request has the status and the trainer, and
  neither \<open>approvedBy\<close> nor \<open>approvedAt\<close>; every further approval of that request (with
  well formed ids) fails with 409 and changes nothing. For a pending request, a trainer
  whose user does not have role \<open>TRAINER\<close>, or is \<open>BLOCKED\<close>, or whose profile status is the
  string \<open>"PENDING"\<close>, is refused with 400 and the store is unchanged.
\<close>

lemma approveAndAssign_guards:
  "(approveAndAssign now requestId trainerId adminUserId d = (Inr r', d')
    \<longrightarrow> (\<exists>r. findById sr_id requestId (shiftRequests d) = Some r
             \<and> sr_status r = PENDING_ADMIN
             \<and> r' = r\<lparr> sr_status := APPROVED, sr_assignedTrainerId := Some trainerId,
                          sr_approvedBy := Some adminUserId, sr_approvedAt := Some now \<rparr>
             \<and> d' = d\<lparr>shiftRequests := saveDoc sr_id (shiftRequest_toObject r') (shiftRequests d)\<rparr>
             \<and> findById sr_id requestId (shiftRequests d') = Some (shiftRequest_toObject r'))
        \<and> (\<forall>now2 trainerId2 adminUserId2.
              isValidObjectId trainerId2 \<and> isValidObjectId adminUserId2
              \<longrightarrow> approveAndAssign now2 requestId trainerId2 adminUserId2 d'
                  = (Inl (AppError ''Only PENDING_ADMIN requests can be approved'' 409), d')))
   \<and> (isValidObjectId requestId \<and> isValidObjectId trainerId \<and> isValidObjectId adminUserId
        \<and> findById sr_id requestId (shiftRequests d) = Some r
        \<and> sr_status r = PENDING_ADMIN
        \<and> findById t_id trainerId (trainers d) = Some t
        \<and> findById u_id (t_userId t) (users d) = Some u
        \<and> (u_role u \<noteq> TRAINER \<or> u_status u = BLOCKED \<or> t_status t = ''PENDING'')
    \<longrightarrow> approveAndAssign now requestId trainerId adminUserId d
          = (Inl (AppError ''Trainer is not eligible for assignment'' 400), d))"
proof (intro conjI impI)
  assume ok: "approveAndAssign now requestId trainerId adminUserId d = (Inr r', d')"
  then have v: "isValidObjectId requestId"
    by (auto simp: approveAndAssign_def split: if_splits)
  from ok obtain r where r: "findById sr_id requestId (shiftRequests d) = Some r"
    by (auto simp: approveAndAssign_def split: if_splits option.splits)
  from ok r have st: "sr_status r = PENDING_ADMIN"
    by (auto simp: approveAndAssign_def split: if_splits option.splits)
  from ok r st have r': "r' = r\<lparr> sr_status := APPROVED, sr_assignedTrainerId := Some trainerId,
                          sr_approvedBy := Some adminUserId, sr_approvedAt := Some now \<rparr>"
    and d': "d' = d\<lparr>shiftRequests := saveDoc sr_id (shiftRequest_toObject r') (shiftRequests d)\<rparr>"
    by (auto simp: approveAndAssign_def Let_def split: if_splits option.splits)
  from r have id: "sr_id r = requestId" and taken: "idTaken sr_id requestId (shiftRequests d)"
    by (auto dest: findById_Some findById_idTaken)
  have f: "findById sr_id requestId (shiftRequests d') = Some (shiftRequest_toObject r')"
    using id taken by (simp add: d' findById_saveDoc r')
  show "\<exists>r. findById sr_id requestId (shiftRequests d) = Some r
             \<and> sr_status r = PENDING_ADMIN
             \<and> r' = r\<lparr> sr_status := APPROVED, sr_assignedTrainerId := Some trainerId,
                          sr_approvedBy := Some adminUserId, sr_approvedAt := Some now \<rparr>
             \<and> d' = d\<lparr>shiftRequests := saveDoc sr_id (shiftRequest_toObject r') (shiftRequests d)\<rparr>
             \<and> findById sr_id requestId (shiftRequests d') = Some (shiftRequest_toObject r')"
    using r st r' d' f by blast
  have "sr_status (shiftRequest_toObject r') = APPROVED"
    by (simp add: r')
  with f v show "\<forall>now2 trainerId2 adminUserId2.
              isValidObjectId trainerId2 \<and> isValidObjectId adminUserId2
              \<longrightarrow> approveAndAssign now2 requestId trainerId2 adminUserId2 d'
                  = (Inl (AppError ''Only PENDING_ADMIN requests can be approved'' 409), d')"
    by (simp add: approveAndAssign_def)
next
  assume "isValidObjectId requestId \<and> isValidObjectId trainerId \<and> isValidObjectId adminUserId
        \<and> findById sr_id requestId (shiftRequests d) = Some r
        \<and> sr_status r = PENDING_ADMIN
        \<and> findById t_id trainerId (trainers d) = Some t
        \<and> findById u_id (t_userId t) (users d) = Some u
        \<and> (u_role u \<noteq> TRAINER \<or> u_status u = BLOCKED \<or> t_status t = ''PENDING'')"
  then show "approveAndAssign now requestId trainerId adminUserId d
          = (Inl (AppError ''Trainer is not eligible for assignment'' 400), d)"
    by (auto simp: approveAndAssign_def Let_def)
qed

text \<open>
  C6, where the code departs from it. In the example the administrator approves the
  request at 08:30: the returned document has \<open>approvedBy\<close> and \<open>approvedAt\<close>, the stored
  request is \<open>APPROVED\<close> and assigned, but has neither, because the schema of a shift request
  declares no such paths. And a trainer whose profile has the status that the profile schema
  gives every new profile, \<open>"pending"\<close>, is assigned: the eligibility check compares with
  \<open>"PENDING"\<close>. A trainer whose user is blocked, or whose profile status is the string
  \<open>"PENDING"\<close>, is refused with 400 and the store is unchanged.
\<close>

theorem approve_drops_approver_and_admits_pending:
  "map_sum id sr_approvedBy (fst approveFirst) = Inr (Some adminA)
   \<and> map_sum id sr_approvedAt (fst approveFirst) = Inr (Some (hm 8 30))
   \<and> snd approveFirst = db2
   \<and> map_option sr_status (findById sr_id request1 (shiftRequests db2)) = Some APPROVED
   \<and> map_option sr_assignedTrainerId (findById sr_id request1 (shiftRequests db2))
        = Some (Some trainerT)
   \<and> map_option sr_approvedBy (findById sr_id request1 (shiftRequests db2)) = Some None
   \<and> map_option sr_approvedAt (findById sr_id request1 (shiftRequests db2)) = Some None
   \<and> map_option t_status (findById t_id trainerT (trainers db1_pending)) = Some ''pending''
   \<and> map_sum id sr_assignedTrainerId (fst approvePending) = Inr (Some trainerT)
   \<and> map_option sr_status (findById sr_id request1 (shiftRequests (snd approvePending)))
        = Some APPROVED
   \<and> approveBlocked = (Inl (AppError ''Trainer is not eligible for assignment'' 400), db1_blocked)
   \<and> approveUpperPending
        = (Inl (AppError ''Trainer is not eligible for assignment'' 400), db1_PENDING)
   \<and> approveSecond = (Inl (AppError ''Only PENDING_ADMIN requests can be approved'' 409), db2)"
  by code_simp

section \<open>C9: clock-in links the shift and leaves the request approved\<close>

lemma clockIn_success:
  assumes "clockInShiftAsTrainer now newId trainerUserId requestId d = (Inr s, d')"
  shows "\<exists>t r. find (\<lambda>t. t_userId t = trainerUserId) (trainers d) = Some t
           \<and> findById sr_id requestId (shiftRequests d) = Some r
           \<and> sr_assignedTrainerId r = Some (t_id t)
           \<and> sr_status r = APPROVED
           \<and> find (\<lambda>s. sh_shiftRequestId s = sr_id r \<and> sh_status s = SHIFT_IN_PROGRESS) (shifts d) = None
           \<and> sr_start r < sr_end r
           \<and> \<not> idTaken sh_id newId (shifts d)
           \<and> s = \<lparr> sh_id = newId, sh_shiftRequestId = sr_id r,
                    sh_participantId = sr_participantId r, sh_trainerId = t_id t,
                    sh_service = sr_service r, sh_scheduledStart = sr_start r,
                    sh_scheduledEnd = sr_end r,
                    sh_scheduledDurationMinutes = Math_round (of_int (sr_end r - sr_start r) / 60000),
                    sh_actualClockIn = now, sh_plannedClockOut = now + (sr_end r - sr_start r),
                    sh_actualClockOut = None, sh_status = SHIFT_IN_PROGRESS,
                    sh_report = None, sh_billing = None \<rparr>
           \<and> d' = d\<lparr> shifts := shifts d @ [s],
                      shiftRequests := saveDoc sr_id (r\<lparr>sr_linkedShiftId := Some newId\<rparr>) (shiftRequests d) \<rparr>"
  using assms unfolding clockInShiftAsTrainer_def Let_def
  by (simp split: if_splits option.splits) force




section \<open>C3: timesheet status transitions\<close>

text \<open>
  What the three transitions do to a stored timesheet: submit sets the status \<open>SUBMITTED\<close>
  whatever the status was; approve moves \<open>SUBMITTED\<close> or \<open>REOPENED\<close> to \<open>APPROVED\<close> and
  fails with 409 from any other status; reopen moves \<open>SUBMITTED\<close> or \<open>APPROVED\<close> to
  \<open>REOPENED\<close> and fails with 409 from any other status; the sheet that reopen stores and
  returns has no audit log. A failed call leaves the store unchanged.
\<close>

lemma timesheet_transitions:
  "isValidObjectId ident \<and> findById ts_id ident (timesheets d) = Some ts
   \<longrightarrow> submitTimesheet ident trainerUserId d
         = (Inr (ts\<lparr>ts_status := SUBMITTED\<rparr>),
            d\<lparr>timesheets := saveDoc ts_id (ts\<lparr>ts_status := SUBMITTED\<rparr>) (timesheets d)\<rparr>)
       \<and> (ts_status ts = SUBMITTED \<or> ts_status ts = REOPENED
            \<longrightarrow> approveTimesheet ident adminUserId d
                  = (Inr (ts\<lparr>ts_status := TS_APPROVED\<rparr>),
                     d\<lparr>timesheets := saveDoc ts_id (ts\<lparr>ts_status := TS_APPROVED\<rparr>) (timesheets d)\<rparr>))
       \<and> (ts_status ts \<noteq> SUBMITTED \<and> ts_status ts \<noteq> REOPENED
            \<longrightarrow> approveTimesheet ident adminUserId d
                  = (Inl (AppError ''Only SUBMITTED/REOPENED can be approved'' 409), d))
       \<and> (ts_status ts = SUBMITTED \<or> ts_status ts = TS_APPROVED
            \<longrightarrow> (let ts' = ts\<lparr>ts_status := REOPENED, ts_audit := None\<rparr>
                  in reopenTimesheet now ident adminUserId reason d
                       = (Inr ts', d\<lparr>timesheets := saveDoc ts_id ts' (timesheets d)\<rparr>)))
       \<and> (ts_status ts \<noteq> SUBMITTED \<and> ts_status ts \<noteq> TS_APPROVED
            \<longrightarrow> reopenTimesheet now ident adminUserId reason d
                  = (Inl (AppError ''Only SUBMITTED/APPROVED can be reopened'' 409), d))"
  by (auto simp: submitTimesheet_def approveTimesheet_def reopenTimesheet_def
      timesheet_toObject_def Let_def)

text \<open>
  C3, where the code departs from it. In the example the week's sheet is submitted and
  approved. Submitting the approved sheet succeeds and puts it back to \<open>SUBMITTED\<close>:
  \<open>submitTimesheet\<close> checks no status (its check is commented out, while approve and
  reopen check theirs). And reopening the submitted sheet with a reason succeeds and sets
  \<open>REOPENED\<close>, but neither the returned sheet nor the stored one carries an audit entry:
  the timesheet schema declares no \<open>audit\<close> path. The guarded transitions are as claimed:
  a draft cannot be approved or reopened (409).
\<close>

theorem submit_unguarded_reopen_unlogged:
  "map_option ts_status (findById ts_id sheet1 (timesheets db4)) = Some DRAFT
   \<and> map_sum id ts_status (fst (submitTimesheet sheet1 userT db4)) = Inr SUBMITTED
   \<and> map_option ts_status (findById ts_id sheet1 (timesheets db5)) = Some SUBMITTED
   \<and> map_sum id ts_status (fst (approveTimesheet sheet1 adminA db5)) = Inr TS_APPROVED
   \<and> map_option ts_status (findById ts_id sheet1 (timesheets db6)) = Some TS_APPROVED
   \<and> map_sum id ts_status (fst (submitTimesheet sheet1 userT db6)) = Inr SUBMITTED
   \<and> map_option ts_status (findById ts_id sheet1 (timesheets (snd (submitTimesheet sheet1 userT db6))))
        = Some SUBMITTED
   \<and> map_sum id ts_status (fst reopenSubmitted) = Inr REOPENED
   \<and> map_sum id ts_audit (fst reopenSubmitted) = Inr None
   \<and> map_option ts_status (findById ts_id sheet1 (timesheets (snd reopenSubmitted))) = Some REOPENED
   \<and> map_option ts_audit (findById ts_id sheet1 (timesheets (snd reopenSubmitted))) = Some None
   \<and> approveTimesheet sheet1 adminA db4
        = (Inl (AppError ''Only SUBMITTED/REOPENED can be approved'' 409), db4)
   \<and> reopenTimesheet (hm 18 0) sheet1 adminA None db4
        = (Inl (AppError ''Only SUBMITTED/APPROVED can be reopened'' 409), db4)"
  by code_simp

section \<open>Clock-out, step by step\<close>

lemma findSheet_frame [simp]:
  "findSheet T W (d\<lparr>shifts := shs, shiftRequests := rs\<rparr>) = findSheet T W d"
  by (simp add: findSheet_def)

lemma upsert_frame:
  "upsertTimesheetForShift newId a (d\<lparr>shifts := shs, shiftRequests := rs\<rparr>)
     = (fst (upsertTimesheetForShift newId a d),
        (snd (upsertTimesheetForShift newId a d))\<lparr>shifts := shs, shiftRequests := rs\<rparr>)"
proof (cases rule: upsert_cases[where newId = newId and a = a and d = d])
  case invalid
  from upsert_invalid[OF invalid(1)] show ?thesis
    by (simp add: invalid(2))
next
  case (found W E ts)
  from found(3) have "findSheet (ua_trainerId a) W (d\<lparr>shifts := shs, shiftRequests := rs\<rparr>) = Some ts"
    by simp
  from upsert_found[OF found(1,2) this] show ?thesis
    by (simp add: found(4))
next
  case (taken W E)
  from taken(3) have "findSheet (ua_trainerId a) W (d\<lparr>shifts := shs, shiftRequests := rs\<rparr>) = None"
    by simp
  from upsert_absent_taken[OF taken(1,2) this] taken(4) show ?thesis
    by (simp add: taken(5))
next
  case (fresh W E)
  from fresh(3) have "findSheet (ua_trainerId a) W (d\<lparr>shifts := shs, shiftRequests := rs\<rparr>) = None"
    by simp
  from upsert_absent_fresh[OF fresh(1,2) this] fresh(4) show ?thesis
    by (simp add: fresh(5) Let_def)
qed

lemma upsert_only_timesheets:
  "shifts (snd (upsertTimesheetForShift newId a d)) = shifts d"
  "shiftRequests (snd (upsertTimesheetForShift newId a d)) = shiftRequests d"
  "users (snd (upsertTimesheetForShift newId a d)) = users d"
  "trainers (snd (upsertTimesheetForShift newId a d)) = trainers d"
  "participants (snd (upsertTimesheetForShift newId a d)) = participants d"
proof -
  have "shifts (snd (upsertTimesheetForShift newId a d)) = shifts d
      \<and> shiftRequests (snd (upsertTimesheetForShift newId a d)) = shiftRequests d
      \<and> users (snd (upsertTimesheetForShift newId a d)) = users d
      \<and> trainers (snd (upsertTimesheetForShift newId a d)) = trainers d
      \<and> participants (snd (upsertTimesheetForShift newId a d)) = participants d"
    by (cases rule: upsert_cases[where newId = newId and a = a and d = d]) simp_all
  then show "shifts (snd (upsertTimesheetForShift newId a d)) = shifts d"
    "shiftRequests (snd (upsertTimesheetForShift newId a d)) = shiftRequests d"
    "users (snd (upsertTimesheetForShift newId a d)) = users d"
    "trainers (snd (upsertTimesheetForShift newId a d)) = trainers d"
    "participants (snd (upsertTimesheetForShift newId a d)) = participants d"
    by simp_all
qed

lemma upsertNaN_cases:
  obtains (same) e where "upsertTimesheetForShift_NaN newId T date d = (e, d)"
  | (inserted) W E where "startOfWeekUTC date = Some W" "endOfWeekUTC (Some W) = Some E"
      "upsertTimesheetForShift_NaN newId T date d
         = (Thrown ''ValidationError'', d\<lparr>timesheets := timesheets d @ [emptySheet newId T W E]\<rparr>)"
proof (cases "startOfWeekUTC date")
  case None
  then show ?thesis
    by (intro same) (simp add: upsertTimesheetForShift_NaN_def Let_def)
next
  case W: (Some W)
  show ?thesis
  proof (cases "endOfWeekUTC (Some W)")
    case None
    with W show ?thesis
      by (intro same) (simp add: upsertTimesheetForShift_NaN_def Let_def)
  next
    case E: (Some E)
    show ?thesis
    proof (cases "find (\<lambda>t. ts_trainerId t = T \<and> ts_weekStart t = W) (timesheets d)")
      case (Some ts)
      with W E show ?thesis
        by (intro same) (simp add: upsertTimesheetForShift_NaN_def findOneAndUpsertTimesheet_def Let_def)
    next
      case None
      show ?thesis
      proof (cases "idTaken ts_id newId (timesheets d)")
        case True
        with W E None show ?thesis
          by (intro same)
            (simp add: upsertTimesheetForShift_NaN_def findOneAndUpsertTimesheet_def Let_def)
      next
        case False
        with W E None show ?thesis
          by (intro inserted[of W E])
            (simp_all add: upsertTimesheetForShift_NaN_def findOneAndUpsertTimesheet_def Let_def
              emptySheet_def)
      qed
    qed
  qed
qed

lemma upsertNaN_frame:
  "upsertTimesheetForShift_NaN newId T date (d\<lparr>shifts := shs, shiftRequests := rs\<rparr>)
     = (fst (upsertTimesheetForShift_NaN newId T date d),
        (snd (upsertTimesheetForShift_NaN newId T date d))\<lparr>shifts := shs, shiftRequests := rs\<rparr>)"
  by (simp add: upsertTimesheetForShift_NaN_def findOneAndUpsertTimesheet_def Let_def
      split: option.splits)

lemma clockOutShift_fields [simp]:
  "sh_id (clockOutShift now report r sh) = sh_id sh"
  "sh_shiftRequestId (clockOutShift now report r sh) = sh_shiftRequestId sh"
  "sh_trainerId (clockOutShift now report r sh) = sh_trainerId sh"
  "sh_scheduledStart (clockOutShift now report r sh) = sh_scheduledStart sh"
  "sh_scheduledEnd (clockOutShift now report r sh) = sh_scheduledEnd sh"
  "sh_status (clockOutShift now report r sh) = SHIFT_COMPLETED"
  "sh_actualClockOut (clockOutShift now report r sh) = Some (min now (sh_scheduledEnd sh))"
  "sh_billing (clockOutShift now report r sh) = None"
  by (auto simp: clockOutShift_def shift_toObject_def min_def)

lemma clockOut_run:
  assumes "isValidObjectId trainerUserId" "isValidObjectId requestId"
    and "find (\<lambda>t. t_userId t = trainerUserId) (trainers d) = Some t"
    and "findById sr_id requestId (shiftRequests d) = Some r"
    and "sr_assignedTrainerId r = Some (t_id t)"
    and "sr_linkedShiftId r = Some sid"
    and "findById sh_id sid (shifts d) = Some sh"
    and "orElse (Option.bind report ri_km) (Num 0) = Num km"
  shows "clockOutShiftAsTrainer now newId trainerUserId requestId report d =
     (let sh' = clockOutShift now report r sh;
          u = upsertTimesheetForShift newId (clockOutUpsertArgs km r sh) d;
          d' = (snd u)\<lparr> shifts := saveDoc sh_id sh' (shifts d),
                         shiftRequests := saveDoc sr_id (r\<lparr>sr_status := COMPLETED\<rparr>) (shiftRequests d) \<rparr>
      in (case fst u of Inl e \<Rightarrow> Inl e | Inr ts \<Rightarrow> Inr (sh', ts), d'))"
proof -
  let ?sh' = "clockOutShift now report r sh"
  let ?a = "clockOutUpsertArgs km r sh"
  let ?d2 = "d\<lparr> shifts := saveDoc sh_id ?sh' (shifts d),
               shiftRequests := saveDoc sr_id (r\<lparr>sr_status := COMPLETED\<rparr>) (shiftRequests d) \<rparr>"
  have "clockOutShiftAsTrainer now newId trainerUserId requestId report d =
      (case upsertTimesheetForShift newId ?a ?d2 of
         (Inl e, d) \<Rightarrow> (Inl e, d)
       | (Inr timesheet, d) \<Rightarrow> (Inr (?sh', timesheet), d))"
    using assms
    by (simp add: clockOutShiftAsTrainer_def Let_def getPricingSnapshotForShift_def
        clockOutShift_def clockOutUpsertArgs_def shift_toObject_def split: prod.splits sum.splits)
  also have "\<dots> = (let u = upsertTimesheetForShift newId ?a d;
          d' = (snd u)\<lparr> shifts := saveDoc sh_id ?sh' (shifts d),
                         shiftRequests := saveDoc sr_id (r\<lparr>sr_status := COMPLETED\<rparr>) (shiftRequests d) \<rparr>
      in (case fst u of Inl e \<Rightarrow> Inl e | Inr ts \<Rightarrow> Inr (?sh', ts), d'))"
    unfolding upsert_frame by (simp add: Let_def split: sum.splits)
  finally show ?thesis
    by (simp add: Let_def)
qed

lemma clockOut_nan:
  assumes "isValidObjectId trainerUserId" "isValidObjectId requestId"
    and "find (\<lambda>t. t_userId t = trainerUserId) (trainers d) = Some t"
    and "findById sr_id requestId (shiftRequests d) = Some r"
    and "sr_assignedTrainerId r = Some (t_id t)"
    and "sr_linkedShiftId r = Some sid"
    and "findById sh_id sid (shifts d) = Some sh"
    and "orElse (Option.bind report ri_km) (Num 0) = NaN"
  shows "clockOutShiftAsTrainer now newId trainerUserId requestId report d =
     (let u = upsertTimesheetForShift_NaN newId (sh_trainerId sh) (sr_end r) d
      in (Inl (fst u),
          (snd u)\<lparr> shifts := saveDoc sh_id (clockOutShift now report r sh) (shifts d),
                    shiftRequests := saveDoc sr_id (r\<lparr>sr_status := COMPLETED\<rparr>) (shiftRequests d) \<rparr>))"
proof -
  let ?sh' = "clockOutShift now report r sh"
  let ?d2 = "d\<lparr> shifts := saveDoc sh_id ?sh' (shifts d),
               shiftRequests := saveDoc sr_id (r\<lparr>sr_status := COMPLETED\<rparr>) (shiftRequests d) \<rparr>"
  have "clockOutShiftAsTrainer now newId trainerUserId requestId report d =
      (case upsertTimesheetForShift_NaN newId (sh_trainerId sh) (sr_end r) ?d2 of
         (e, d) \<Rightarrow> (Inl e, d))"
    using assms
    by (simp add: clockOutShiftAsTrainer_def Let_def getPricingSnapshotForShift_def
        clockOutShift_def shift_toObject_def split: prod.splits)
  then show ?thesis
    unfolding upsertNaN_frame by (simp add: Let_def)
qed

lemma upsert_succeeds:
  assumes "startOfWeekUTC (ua_date a) = Some W" "endOfWeekUTC (Some W) = Some E"
    and "findSheet (ua_trainerId a) W d \<noteq> None \<or> \<not> idTaken ts_id newId (timesheets d)"
  shows "\<exists>ts. fst (upsertTimesheetForShift newId a d) = Inr ts"
proof (cases "findSheet (ua_trainerId a) W d")
  case None
  with assms have "\<not> idTaken ts_id newId (timesheets d)"
    by simp
  from upsert_absent_fresh[OF assms(1,2) None this] show ?thesis
    by (simp add: Let_def)
next
  case (Some ts)
  from upsert_found[OF assms(1,2) Some] show ?thesis
    by simp
qed

section \<open>C10: clock-out does not look at the shift's status\<close>

text \<open>
  What a clock-out does whatever the status of the linked shift is. For the trainer the
  request is assigned to, a report whose \<open>km\<close> is absent or numeric and a scheduled end
  whose week lies in the range of dates (the week's sheet exists, or else the id for a new
  sheet is free), the call succeeds: the shift is stored and returned with the new
  \<open>actualClockOut\<close>, the report of this call and status \<open>COMPLETED\<close>, and without a
  billing snapshot; the request is stored \<open>COMPLETED\<close>, and the timesheets are those that
  the upsert for this shift id leaves.
\<close>

lemma clockOut_any_status:
  "isValidObjectId trainerUserId \<and> isValidObjectId requestId
   \<and> find (\<lambda>t. t_userId t = trainerUserId) (trainers d) = Some t
   \<and> findById sr_id requestId (shiftRequests d) = Some r
   \<and> sr_assignedTrainerId r = Some (t_id t)
   \<and> sr_linkedShiftId r = Some sid
   \<and> findById sh_id sid (shifts d) = Some sh
   \<and> orElse (Option.bind report ri_km) (Num 0) = Num km
   \<and> startOfWeekUTC (sr_end r) = Some W \<and> endOfWeekUTC (Some W) = Some E
   \<and> (findSheet (sh_trainerId sh) W d \<noteq> None \<or> \<not> idTaken ts_id newId (timesheets d))
   \<longrightarrow> (\<exists>sh' ts d'.
          clockOutShiftAsTrainer now newId trainerUserId requestId report d = (Inr (sh', ts), d')
          \<and> sh' = clockOutShift now report r sh
          \<and> sh_status sh' = SHIFT_COMPLETED
          \<and> sh_actualClockOut sh' = Some (min now (sh_scheduledEnd sh))
          \<and> sh_billing sh' = None
          \<and> findById sh_id sid (shifts d') = Some sh'
          \<and> findById sr_id requestId (shiftRequests d') = Some (r\<lparr>sr_status := COMPLETED\<rparr>)
          \<and> ua_shiftId (clockOutUpsertArgs km r sh) = sid
          \<and> fst (upsertTimesheetForShift newId (clockOutUpsertArgs km r sh) d) = Inr ts
          \<and> timesheets d'
                = timesheets (snd (upsertTimesheetForShift newId (clockOutUpsertArgs km r sh) d)))"
proof
  assume a: "isValidObjectId trainerUserId \<and> isValidObjectId requestId
   \<and> find (\<lambda>t. t_userId t = trainerUserId) (trainers d) = Some t
   \<and> findById sr_id requestId (shiftRequests d) = Some r
   \<and> sr_assignedTrainerId r = Some (t_id t)
   \<and> sr_linkedShiftId r = Some sid
   \<and> findById sh_id sid (shifts d) = Some sh
   \<and> orElse (Option.bind report ri_km) (Num 0) = Num km
   \<and> startOfWeekUTC (sr_end r) = Some W \<and> endOfWeekUTC (Some W) = Some E
   \<and> (findSheet (sh_trainerId sh) W d \<noteq> None \<or> \<not> idTaken ts_id newId (timesheets d))"
  let ?sh' = "clockOutShift now report r sh"
  let ?a = "clockOutUpsertArgs km r sh"
  let ?u = "upsertTimesheetForShift newId ?a d"
  let ?d' = "(snd ?u)\<lparr> shifts := saveDoc sh_id ?sh' (shifts d),
                shiftRequests := saveDoc sr_id (r\<lparr>sr_status := COMPLETED\<rparr>) (shiftRequests d) \<rparr>"
  from a have w: "startOfWeekUTC (ua_date ?a) = Some W" "endOfWeekUTC (Some W) = Some E"
    and s: "findSheet (ua_trainerId ?a) W d \<noteq> None \<or> \<not> idTaken ts_id newId (timesheets d)"
    by (simp_all add: clockOutUpsertArgs_def)
  from upsert_succeeds[OF w s] obtain ts where ts: "fst ?u = Inr ts"
    by blast
  from a have run: "clockOutShiftAsTrainer now newId trainerUserId requestId report d
      = (Inr (?sh', ts), ?d')"
    by (simp add: clockOut_run[where t = t and r = r and sid = sid and sh = sh and km = km] Let_def ts)
  from a have ids: "sh_id sh = sid" "sr_id r = requestId"
    and taken: "idTaken sh_id sid (shifts d)" "idTaken sr_id requestId (shiftRequests d)"
    by (auto dest: findById_Some findById_idTaken)
  have f1: "findById sh_id sid (shifts ?d') = Some ?sh'"
    using ids taken by (simp add: findById_saveDoc)
  have f2: "findById sr_id requestId (shiftRequests ?d') = Some (r\<lparr>sr_status := COMPLETED\<rparr>)"
    using ids taken by (simp add: findById_saveDoc)
  have f3: "ua_shiftId ?a = sid"
    using ids by (simp add: clockOutUpsertArgs_def)
  show "\<exists>sh' ts d'.
          clockOutShiftAsTrainer now newId trainerUserId requestId report d = (Inr (sh', ts), d')
          \<and> sh' = clockOutShift now report r sh
          \<and> sh_status sh' = SHIFT_COMPLETED
          \<and> sh_actualClockOut sh' = Some (min now (sh_scheduledEnd sh))
          \<and> sh_billing sh' = None
          \<and> findById sh_id sid (shifts d') = Some sh'
          \<and> findById sr_id requestId (shiftRequests d') = Some (r\<lparr>sr_status := COMPLETED\<rparr>)
          \<and> ua_shiftId (clockOutUpsertArgs km r sh) = sid
          \<and> fst (upsertTimesheetForShift newId (clockOutUpsertArgs km r sh) d) = Inr ts
          \<and> timesheets d'
                = timesheets (snd (upsertTimesheetForShift newId (clockOutUpsertArgs km r sh) d))"
    using run f1 f2 f3 ts by (intro exI[of _ ?sh'] exI[of _ ts] exI[of _ ?d']) simp
qed

text \<open>
  C10, where the code departs from it. In the example the trainer clocks out at 10:30
  with 12 km, which completes the shift, and clocks out again at 11:40 with 5 km. The
  second call succeeds: it overwrites \<open>actualClockOut\<close> (now the scheduled end, 11:00) and
  the report, leaves shift and request \<open>COMPLETED\<close> and replaces the shift's line on the
  week's sheet. But there is no billing snapshot to overwrite: neither after the first call
  nor after the second does the stored shift have one, and the returned shift has none,
  because the shift schema declares no \<open>billing\<close> path. With a report whose \<open>km\<close> is not
  numeric the repeated call saves shift and request and then fails in the timesheet upsert.
\<close>

theorem clockOut_again_without_billing:
  "map_option sh_status (findById sh_id shift1 (shifts dbEarly)) = Some SHIFT_COMPLETED
   \<and> map_option sh_actualClockOut (findById sh_id shift1 (shifts dbEarly)) = Some (Some (hm 10 30))
   \<and> map_option sh_billing (findById sh_id shift1 (shifts dbEarly)) = Some None
   \<and> map_sum id (sh_status \<circ> fst) (fst clockOutAgain) = Inr SHIFT_COMPLETED
   \<and> map_sum id (sh_actualClockOut \<circ> fst) (fst clockOutAgain) = Inr (Some (hm 11 0))
   \<and> map_sum id (map_option rp_km \<circ> sh_report \<circ> fst) (fst clockOutAgain) = Inr (Some (Some 5))
   \<and> map_sum id (sh_billing \<circ> fst) (fst clockOutAgain) = Inr None
   \<and> map_option sh_actualClockOut (findById sh_id shift1 (shifts (snd clockOutAgain)))
        = Some (Some (hm 11 0))
   \<and> map_option sh_billing (findById sh_id shift1 (shifts (snd clockOutAgain))) = Some None
   \<and> map_option sr_status (findById sr_id request1 (shiftRequests (snd clockOutAgain)))
        = Some COMPLETED
   \<and> map (map it_shiftId \<circ> ts_items) (timesheets dbEarly) = [[shift1]]
   \<and> map (map it_km \<circ> ts_items) (timesheets dbEarly) = [[Some 12]]
   \<and> map (map it_shiftId \<circ> ts_items) (timesheets (snd clockOutAgain)) = [[shift1]]
   \<and> map (map it_km \<circ> ts_items) (timesheets (snd clockOutAgain)) = [[Some 5]]
   \<and> fst clockOutAgainNaN = Inl (Thrown ''ValidationError'')
   \<and> map_option sh_actualClockOut (findById sh_id shift1 (shifts (snd clockOutAgainNaN)))
        = Some (Some (hm 11 0))
   \<and> map (map it_km \<circ> ts_items) (timesheets (snd clockOutAgainNaN)) = [[Some 12]]"
  by code_simp

section \<open>What each service call does to the store\<close>

lemma createShiftRequest_cases:
  obtains (fail) e where "createShiftRequest now newId payload role d = (Inl e, d)"
  | (ok) r where "createShiftRequest now newId payload role d
                    = (Inr r, d\<lparr>shiftRequests := shiftRequests d @ [r]\<rparr>)"
      "sr_linkedShiftId r = None" "windowOk r" "sr_status r = PENDING_ADMIN"
proof (cases "fst (createShiftRequest now newId payload role d)")
  case (Inl e)
  then have "createShiftRequest now newId payload role d = (Inl e, d)"
    by (auto simp: createShiftRequest_def Let_def split: if_splits sum.splits)
  then show ?thesis by (rule fail)
next
  case (Inr r)
  then obtain s e where se: "toDate (ci_start payload) = Some s" "toDate (ci_end payload) = Some e"
    and w: "validateRequestWindow now (Some s) (Some e) = Inr ()"
    by (auto simp: createShiftRequest_def Let_def validateRequestWindow_def
        split: if_splits sum.splits option.splits)
  from w have "\<not> (of_int (e - s) :: rat) / (1000 * 60) < 30"
    by (auto simp: validateRequestWindow_def split: if_splits)
  then have "(1800000 :: rat) \<le> of_int (e - s)"
    by simp
  then have win: "1800000 \<le> e - s"
    by (metis of_int_le_iff of_int_numeral)
  from Inr se have r: "createShiftRequest now newId payload role d
                    = (Inr r, d\<lparr>shiftRequests := shiftRequests d @ [r]\<rparr>)"
    and f: "sr_linkedShiftId r = None" "sr_start r = s" "sr_end r = e" "sr_status r = PENDING_ADMIN"
    by (auto simp: createShiftRequest_def Let_def split: if_splits sum.splits)
  show ?thesis
    using r f win by (intro ok[of r]) (simp_all add: windowOk_def)
qed

lemma approveAndAssign_cases:
  obtains (fail) e where "approveAndAssign now requestId trainerId adminUserId d = (Inl e, d)"
  | (ok) r where "findById sr_id requestId (shiftRequests d) = Some r"
      "approveAndAssign now requestId trainerId adminUserId d
         = (Inr (r\<lparr> sr_status := APPROVED, sr_assignedTrainerId := Some trainerId,
                      sr_approvedBy := Some adminUserId, sr_approvedAt := Some now \<rparr>),
            d\<lparr>shiftRequests := saveDoc sr_id
                 (shiftRequest_toObject
                   (r\<lparr> sr_status := APPROVED, sr_assignedTrainerId := Some trainerId,
                        sr_approvedBy := Some adminUserId, sr_approvedAt := Some now \<rparr>))
                 (shiftRequests d)\<rparr>)"
proof (cases "fst (approveAndAssign now requestId trainerId adminUserId d)")
  case (Inl e)
  then have "approveAndAssign now requestId trainerId adminUserId d = (Inl e, d)"
    by (auto simp: approveAndAssign_def Let_def split: if_splits option.splits)
  then show ?thesis by (rule fail)
next
  case (Inr r')
  then obtain r where r: "findById sr_id requestId (shiftRequests d) = Some r"
    by (auto simp: approveAndAssign_def split: if_splits option.splits)
  with Inr have "approveAndAssign now requestId trainerId adminUserId d
         = (Inr (r\<lparr> sr_status := APPROVED, sr_assignedTrainerId := Some trainerId,
                      sr_approvedBy := Some adminUserId, sr_approvedAt := Some now \<rparr>),
            d\<lparr>shiftRequests := saveDoc sr_id
                 (shiftRequest_toObject
                   (r\<lparr> sr_status := APPROVED, sr_assignedTrainerId := Some trainerId,
                        sr_approvedBy := Some adminUserId, sr_approvedAt := Some now \<rparr>))
                 (shiftRequests d)\<rparr>)"
    by (auto simp: approveAndAssign_def Let_def split: if_splits option.splits)
  with r show ?thesis by (rule ok)
qed

lemma decline_cases:
  obtains (fail) e where "decline now requestId adminUserId reason d = (Inl e, d)"
  | (ok) r where "findById sr_id requestId (shiftRequests d) = Some r"
      "decline now requestId adminUserId reason d
         = (Inr (r\<lparr> sr_status := DECLINED, sr_approvedBy := Some adminUserId,
                      sr_approvedAt := Some now,
                      sr_declinedReason := (if reason = Some [] then None else reason) \<rparr>),
            d\<lparr>shiftRequests := saveDoc sr_id
                 (shiftRequest_toObject
                   (r\<lparr> sr_status := DECLINED, sr_approvedBy := Some adminUserId,
                        sr_approvedAt := Some now,
                        sr_declinedReason := (if reason = Some [] then None else reason) \<rparr>))
                 (shiftRequests d)\<rparr>)"
proof (cases "fst (decline now requestId adminUserId reason d)")
  case (Inl e)
  then have "decline now requestId adminUserId reason d = (Inl e, d)"
    by (auto simp: decline_def Let_def split: if_splits option.splits)
  then show ?thesis by (rule fail)
next
  case (Inr r')
  then obtain r where r: "findById sr_id requestId (shiftRequests d) = Some r"
    by (auto simp: decline_def split: if_splits option.splits)
  with Inr have "decline now requestId adminUserId reason d
         = (Inr (r\<lparr> sr_status := DECLINED, sr_approvedBy := Some adminUserId,
                      sr_approvedAt := Some now,
                      sr_declinedReason := (if reason = Some [] then None else reason) \<rparr>),
            d\<lparr>shiftRequests := saveDoc sr_id
                 (shiftRequest_toObject
                   (r\<lparr> sr_status := DECLINED, sr_approvedBy := Some adminUserId,
                        sr_approvedAt := Some now,
                        sr_declinedReason := (if reason = Some [] then None else reason) \<rparr>))
                 (shiftRequests d)\<rparr>)"
    by (auto simp: decline_def Let_def split: if_splits option.splits)
  with r show ?thesis by (rule ok)
qed

lemma clockIn_fail_unchanged:
  assumes f: "fst (clockInShiftAsTrainer now newId trainerUserId requestId d) = Inl e"
  shows "snd (clockInShiftAsTrainer now newId trainerUserId requestId d) = d"
proof (cases "isValidObjectId trainerUserId \<and> isValidObjectId requestId")
  case False
  then show ?thesis by (auto simp: clockInShiftAsTrainer_def)
next
  case v: True
  show ?thesis
  proof (cases "find (\<lambda>t. t_userId t = trainerUserId) (trainers d)")
    case None
    with v show ?thesis by (simp add: clockInShiftAsTrainer_def)
  next
    case t: (Some t)
    show ?thesis
    proof (cases "findById sr_id requestId (shiftRequests d)")
      case None
      with v t show ?thesis by (simp add: clockInShiftAsTrainer_def)
    next
      case r: (Some r)
      show ?thesis
      proof (cases "sr_assignedTrainerId r = Some (t_id t) \<and> sr_status r = APPROVED")
        case False
        with v t r show ?thesis by (auto simp: clockInShiftAsTrainer_def)
      next
        case g: True
        show ?thesis
        proof (cases "find (\<lambda>s. sh_shiftRequestId s = sr_id r \<and> sh_status s = SHIFT_IN_PROGRESS) (shifts d)")
          case (Some a)
          with v t r g show ?thesis by (simp add: clockInShiftAsTrainer_def)
        next
          case n: None
          show ?thesis
          proof (cases "sr_start r = 0 \<or> sr_end r = 0 \<or> sr_end r \<le> sr_start r")
            case True
            with v t r g n show ?thesis by (simp add: clockInShiftAsTrainer_def Let_def)
          next
            case w: False
            show ?thesis
            proof (cases "idTaken sh_id newId (shifts d)")
              case True
              with v t r g n w show ?thesis by (simp add: clockInShiftAsTrainer_def Let_def)
            next
              case False
              with v t r g n w have "\<not> isl (fst (clockInShiftAsTrainer now newId trainerUserId requestId d))"
                by (simp add: clockInShiftAsTrainer_def Let_def)
              with f show ?thesis by simp
            qed
          qed
        qed
      qed
    qed
  qed
qed

lemma clockIn_cases:
  obtains (fail) e where "clockInShiftAsTrainer now newId trainerUserId requestId d = (Inl e, d)"
  | (ok) s d' where "clockInShiftAsTrainer now newId trainerUserId requestId d = (Inr s, d')"
proof (cases "fst (clockInShiftAsTrainer now newId trainerUserId requestId d)")
  case (Inl e)
  with clockIn_fail_unchanged[OF Inl]
  have "clockInShiftAsTrainer now newId trainerUserId requestId d = (Inl e, d)"
    by (cases "clockInShiftAsTrainer now newId trainerUserId requestId d") simp
  then show ?thesis by (rule fail)
next
  case (Inr s)
  then have "clockInShiftAsTrainer now newId trainerUserId requestId d
      = (Inr s, snd (clockInShiftAsTrainer now newId trainerUserId requestId d))"
    by (cases "clockInShiftAsTrainer now newId trainerUserId requestId d") simp
  then show ?thesis by (rule ok)
qed

lemma clockOut_cases:
  obtains (fail) e where "clockOutShiftAsTrainer now newId trainerUserId requestId report d = (Inl e, d)"
  | (run) t r sid sh km where "isValidObjectId trainerUserId" "isValidObjectId requestId"
      "find (\<lambda>t. t_userId t = trainerUserId) (trainers d) = Some t"
      "findById sr_id requestId (shiftRequests d) = Some r"
      "sr_assignedTrainerId r = Some (t_id t)"
      "sr_linkedShiftId r = Some sid"
      "findById sh_id sid (shifts d) = Some sh"
      "orElse (Option.bind report ri_km) (Num 0) = Num km"
  | (nan) t r sid sh where "isValidObjectId trainerUserId" "isValidObjectId requestId"
      "find (\<lambda>t. t_userId t = trainerUserId) (trainers d) = Some t"
      "findById sr_id requestId (shiftRequests d) = Some r"
      "sr_assignedTrainerId r = Some (t_id t)"
      "sr_linkedShiftId r = Some sid"
      "findById sh_id sid (shifts d) = Some sh"
      "orElse (Option.bind report ri_km) (Num 0) = NaN"
proof -
  consider (a) "\<not> isValidObjectId trainerUserId"
    | (b) "isValidObjectId trainerUserId" "\<not> isValidObjectId requestId"
    | (c) "isValidObjectId trainerUserId" "isValidObjectId requestId"
    by blast
  then show ?thesis
  proof cases
    case a
    then show ?thesis by (intro fail) (simp add: clockOutShiftAsTrainer_def)
  next
    case b
    then show ?thesis by (intro fail) (simp add: clockOutShiftAsTrainer_def)
  next
    case c
    show ?thesis
    proof (cases "find (\<lambda>t. t_userId t = trainerUserId) (trainers d)")
      case None
      with c show ?thesis by (intro fail) (simp add: clockOutShiftAsTrainer_def)
    next
      case (Some t)
      note t = this
      show ?thesis
      proof (cases "findById sr_id requestId (shiftRequests d)")
        case None
        with c t show ?thesis by (intro fail) (simp add: clockOutShiftAsTrainer_def)
      next
        case (Some r)
        note r = this
        show ?thesis
        proof (cases "sr_assignedTrainerId r = Some (t_id t)")
          case False
          with c t r show ?thesis by (intro fail) (simp add: clockOutShiftAsTrainer_def)
        next
          case True
          note asg = this
          show ?thesis
          proof (cases "Option.bind (sr_linkedShiftId r) (\<lambda>sid. findById sh_id sid (shifts d))")
            case None
            with c t r asg show ?thesis by (intro fail) (simp add: clockOutShiftAsTrainer_def)
          next
            case (Some sh)
            then obtain sid where l: "sr_linkedShiftId r = Some sid" "findById sh_id sid (shifts d) = Some sh"
              by (cases "sr_linkedShiftId r") auto
            show ?thesis
            proof (cases "orElse (Option.bind report ri_km) (Num 0)")
              case NaN
              with c t r asg l show ?thesis by (intro nan)
            next
              case (Num km)
              with c t r asg l show ?thesis by (intro run)
            qed
          qed
        qed
      qed
    qed
  qed
qed

lemma clockOut_store:
  assumes "isValidObjectId trainerUserId" "isValidObjectId requestId"
    and "find (\<lambda>t. t_userId t = trainerUserId) (trainers d) = Some t"
    and "findById sr_id requestId (shiftRequests d) = Some r"
    and "sr_assignedTrainerId r = Some (t_id t)"
    and "sr_linkedShiftId r = Some sid"
    and "findById sh_id sid (shifts d) = Some sh"
  shows "shifts (snd (clockOutShiftAsTrainer now newId trainerUserId requestId report d))
           = saveDoc sh_id (clockOutShift now report r sh) (shifts d)"
    and "shiftRequests (snd (clockOutShiftAsTrainer now newId trainerUserId requestId report d))
           = saveDoc sr_id (r\<lparr>sr_status := COMPLETED\<rparr>) (shiftRequests d)"
proof -
  have "shifts (snd (clockOutShiftAsTrainer now newId trainerUserId requestId report d))
           = saveDoc sh_id (clockOutShift now report r sh) (shifts d)
      \<and> shiftRequests (snd (clockOutShiftAsTrainer now newId trainerUserId requestId report d))
           = saveDoc sr_id (r\<lparr>sr_status := COMPLETED\<rparr>) (shiftRequests d)"
  proof (cases "orElse (Option.bind report ri_km) (Num 0)")
    case NaN
    from clockOut_nan[OF assms NaN] show ?thesis
      by (simp add: Let_def)
  next
    case (Num km)
    from clockOut_run[OF assms Num] show ?thesis
      by (simp add: Let_def)
  qed
  then show "shifts (snd (clockOutShiftAsTrainer now newId trainerUserId requestId report d))
           = saveDoc sh_id (clockOutShift now report r sh) (shifts d)"
    and "shiftRequests (snd (clockOutShiftAsTrainer now newId trainerUserId requestId report d))
           = saveDoc sr_id (r\<lparr>sr_status := COMPLETED\<rparr>) (shiftRequests d)"
    by simp_all
qed

lemma submitTimesheet_cases:
  obtains (fail) e where "submitTimesheet ident trainerUserId d = (Inl e, d)"
  | (ok) ts where "findById ts_id ident (timesheets d) = Some ts"
      "submitTimesheet ident trainerUserId d
         = (Inr (ts\<lparr>ts_status := SUBMITTED\<rparr>),
            d\<lparr>timesheets := saveDoc ts_id (ts\<lparr>ts_status := SUBMITTED\<rparr>) (timesheets d)\<rparr>)"
proof (cases "isValidObjectId ident")
  case False
  then show ?thesis by (intro fail) (simp add: submitTimesheet_def)
next
  case True
  show ?thesis
  proof (cases "findById ts_id ident (timesheets d)")
    case None
    with True show ?thesis by (intro fail) (simp add: submitTimesheet_def)
  next
    case (Some ts)
    with True show ?thesis by (intro ok[of ts]) (simp_all add: submitTimesheet_def Let_def)
  qed
qed

lemma approveTimesheet_cases:
  obtains (fail) e where "approveTimesheet ident adminUserId d = (Inl e, d)"
  | (ok) ts where "findById ts_id ident (timesheets d) = Some ts"
      "approveTimesheet ident adminUserId d
         = (Inr (ts\<lparr>ts_status := TS_APPROVED\<rparr>),
            d\<lparr>timesheets := saveDoc ts_id (ts\<lparr>ts_status := TS_APPROVED\<rparr>) (timesheets d)\<rparr>)"
proof (cases "isValidObjectId ident")
  case False
  then show ?thesis by (intro fail) (simp add: approveTimesheet_def)
next
  case True
  show ?thesis
  proof (cases "findById ts_id ident (timesheets d)")
    case None
    with True show ?thesis by (intro fail) (simp add: approveTimesheet_def)
  next
    case (Some ts)
    show ?thesis
    proof (cases "ts_status ts = SUBMITTED \<or> ts_status ts = REOPENED")
      case False
      with True Some show ?thesis by (intro fail) (simp add: approveTimesheet_def)
    next
      case ok': True
      with True Some show ?thesis
        by (intro ok[of ts]) (auto simp: approveTimesheet_def Let_def)
    qed
  qed
qed

lemma reopenTimesheet_cases:
  obtains (fail) e where "reopenTimesheet now ident adminUserId reason d = (Inl e, d)"
  | (ok) ts where "findById ts_id ident (timesheets d) = Some ts"
      "reopenTimesheet now ident adminUserId reason d
         = (Inr (ts\<lparr>ts_status := REOPENED, ts_audit := None\<rparr>),
            d\<lparr>timesheets := saveDoc ts_id (ts\<lparr>ts_status := REOPENED, ts_audit := None\<rparr>) (timesheets d)\<rparr>)"
proof (cases "isValidObjectId ident")
  case False
  then show ?thesis by (intro fail) (simp add: reopenTimesheet_def)
next
  case True
  show ?thesis
  proof (cases "findById ts_id ident (timesheets d)")
    case None
    with True show ?thesis by (intro fail) (simp add: reopenTimesheet_def)
  next
    case (Some ts)
    show ?thesis
    proof (cases "ts_status ts = SUBMITTED \<or> ts_status ts = TS_APPROVED")
      case False
      with True Some show ?thesis by (intro fail) (simp add: reopenTimesheet_def)
    next
      case ok': True
      with True Some show ?thesis
        by (intro ok[of ts]) (auto simp: reopenTimesheet_def timesheet_toObject_def Let_def)
    qed
  qed
qed


lemma shifts_unchanged:
  "shifts (snd (createShiftRequest now newId payload role d)) = shifts d"
  "shifts (snd (approveAndAssign now requestId trainerId adminUserId d)) = shifts d"
  "shifts (snd (decline now requestId adminUserId reason d)) = shifts d"
  "shifts (snd (submitTimesheet ident trainerUserId d)) = shifts d"
  "shifts (snd (approveTimesheet ident adminUserId d)) = shifts d"
  "shifts (snd (reopenTimesheet now ident adminUserId reason d)) = shifts d"
proof -
  show "shifts (snd (createShiftRequest now newId payload role d)) = shifts d"
    by (cases rule: createShiftRequest_cases[of now newId payload role d]) simp_all
  show "shifts (snd (approveAndAssign now requestId trainerId adminUserId d)) = shifts d"
    by (cases rule: approveAndAssign_cases[of now requestId trainerId adminUserId d]) simp_all
  show "shifts (snd (decline now requestId adminUserId reason d)) = shifts d"
    by (cases rule: decline_cases[of now requestId adminUserId reason d]) simp_all
  show "shifts (snd (submitTimesheet ident trainerUserId d)) = shifts d"
    by (cases rule: submitTimesheet_cases[of ident trainerUserId d]) simp_all
  show "shifts (snd (approveTimesheet ident adminUserId d)) = shifts d"
    by (cases rule: approveTimesheet_cases[of ident adminUserId d]) simp_all
  show "shifts (snd (reopenTimesheet now ident adminUserId reason d)) = shifts d"
    by (cases rule: reopenTimesheet_cases[of now ident adminUserId reason d]) simp_all
qed


lemma timesheets_unchanged:
  "timesheets (snd (createShiftRequest now newId payload role d)) = timesheets d"
  "timesheets (snd (approveAndAssign now requestId trainerId adminUserId d)) = timesheets d"
  "timesheets (snd (decline now requestId adminUserId reason d)) = timesheets d"
  "timesheets (snd (clockInShiftAsTrainer now newId trainerUserId requestId d)) = timesheets d"
proof -
  show "timesheets (snd (createShiftRequest now newId payload role d)) = timesheets d"
    by (cases rule: createShiftRequest_cases[of now newId payload role d]) simp_all
  show "timesheets (snd (approveAndAssign now requestId trainerId adminUserId d)) = timesheets d"
    by (cases rule: approveAndAssign_cases[of now requestId trainerId adminUserId d]) simp_all
  show "timesheets (snd (decline now requestId adminUserId reason d)) = timesheets d"
    by (cases rule: decline_cases[of now requestId adminUserId reason d]) simp_all
  show "timesheets (snd (clockInShiftAsTrainer now newId trainerUserId requestId d)) = timesheets d"
  proof (cases rule: clockIn_cases[of now newId trainerUserId requestId d])
    case (fail e)
    then show ?thesis by simp
  next
    case (ok s d')
    from clockIn_success[OF ok] ok show ?thesis by auto
  qed
qed

lemma clockOut_timesheets:
  "timesheets (snd (clockOutShiftAsTrainer now newId trainerUserId requestId report d)) = timesheets d
   \<or> (\<exists>a. timesheets (snd (clockOutShiftAsTrainer now newId trainerUserId requestId report d))
            = timesheets (snd (upsertTimesheetForShift newId a d)))
   \<or> (\<exists>T W E. endOfWeekUTC (Some W) = Some E
          \<and> timesheets (snd (clockOutShiftAsTrainer now newId trainerUserId requestId report d))
            = timesheets d @ [emptySheet newId T W E])"
proof (cases rule: clockOut_cases[of now newId trainerUserId requestId report d])
  case (fail e)
  then show ?thesis by simp
next
  case (run t r sid sh km)
  show ?thesis
    by (rule disjI2, rule disjI1, rule exI[of _ "clockOutUpsertArgs km r sh"])
      (simp add: clockOut_run[OF run] Let_def)
next
  case (nan t r sid sh)
  show ?thesis
  proof (cases rule: upsertNaN_cases[of newId "sh_trainerId sh" "sr_end r" d])
    case (same e)
    then show ?thesis
      by (simp add: clockOut_nan[OF nan] Let_def)
  next
    case (inserted W E)
    then show ?thesis
      by (intro disjI2 exI[of _ "sh_trainerId sh"] exI[of _ W] exI[of _ E])
        (simp add: clockOut_nan[OF nan] Let_def)
  qed
qed

section \<open>C7: at most one shift in progress per request\<close>

lemma find_None_filter: "find P xs = None \<longleftrightarrow> filter P xs = []"
  by (induction xs) auto

lemma clockIn_success_shifts:
  assumes "clockInShiftAsTrainer now newId trainerUserId requestId d = (Inr s, d')"
  shows "\<exists>r. findById sr_id requestId (shiftRequests d) = Some r
           \<and> find (\<lambda>s. sh_shiftRequestId s = sr_id r \<and> sh_status s = SHIFT_IN_PROGRESS) (shifts d) = None
           \<and> sh_shiftRequestId s = sr_id r \<and> sh_id s = newId
           \<and> sh_scheduledStart s = sr_start r \<and> sh_scheduledEnd s = sr_end r
           \<and> \<not> idTaken sh_id newId (shifts d)
           \<and> shifts d' = shifts d @ [s]
           \<and> shiftRequests d' = saveDoc sr_id (r\<lparr>sr_linkedShiftId := Some newId\<rparr>) (shiftRequests d)"
  using clockIn_success[OF assms] by (elim exE conjE) (rule exI, simp)

lemma inProgressCount_clockIn:
  assumes "inProgressCount rid d \<le> 1"
  shows "inProgressCount rid (snd (clockInShiftAsTrainer now newId trainerUserId requestId d)) \<le> 1"
proof (cases rule: clockIn_cases[of now newId trainerUserId requestId d])
  case (fail e)
  with assms show ?thesis by simp
next
  case (ok s d')
  from clockIn_success_shifts[OF ok] obtain r :: shiftRequest where
    none: "find (\<lambda>s. sh_shiftRequestId s = sr_id r \<and> sh_status s = SHIFT_IN_PROGRESS) (shifts d) = None"
    and s: "sh_shiftRequestId s = sr_id r" and sh: "shifts d' = shifts d @ [s]"
    by blast
  from none have zero: "inProgressCount (sr_id r) d = 0"
    by (simp add: inProgressCount_def find_None_filter)
  show ?thesis
  proof (cases "rid = sr_id r")
    case True
    with zero sh s show ?thesis by (simp add: ok inProgressCount_def)
  next
    case False
    with assms sh s show ?thesis by (simp add: ok inProgressCount_def)
  qed
qed

lemma filter_saveDoc_le:
  "\<not> P x \<Longrightarrow> length (filter P (saveDoc idOf x coll)) \<le> length (filter P coll)"
  unfolding saveDoc_def by (induction coll) auto

lemma inProgressCount_clockOut:
  "inProgressCount rid (snd (clockOutShiftAsTrainer now newId trainerUserId requestId report d))
     \<le> inProgressCount rid d"
proof -
  have saved: "inProgressCount rid (snd (clockOutShiftAsTrainer now newId trainerUserId requestId report d))
      \<le> inProgressCount rid d"
    if "shifts (snd (clockOutShiftAsTrainer now newId trainerUserId requestId report d))
          = saveDoc sh_id (clockOutShift now report r sh) (shifts d)" for r sh
  proof -
    have "sh_status (clockOutShift now report r sh) \<noteq> SHIFT_IN_PROGRESS"
      by simp
    then show ?thesis
      by (simp add: that inProgressCount_def filter_saveDoc_le)
  qed
  show ?thesis
  proof (cases rule: clockOut_cases[of now newId trainerUserId requestId report d])
    case (fail e)
    then show ?thesis by simp
  next
    case (run t r sid sh km)
    from clockOut_store(1)[OF run(1-7)] show ?thesis by (rule saved)
  next
    case (nan t r sid sh)
    from clockOut_store(1)[OF nan(1-7)] show ?thesis by (rule saved)
  qed
qed

lemma reachable_inProgress: "reachable d \<Longrightarrow> inProgressCount rid d \<le> 1"
proof (induction rule: reachable.induct)
  case (init d)
  then show ?case by (simp add: inProgressCount_def)
next
  case (clockIn d now newId trainerUserId requestId)
  then show ?case by (intro inProgressCount_clockIn)
next
  case (clockOut d now newId trainerUserId requestId report)
  then show ?case
    using inProgressCount_clockOut[of rid now newId trainerUserId requestId report d] by linarith
qed (simp_all add: inProgressCount_def shifts_unchanged upsert_only_timesheets)

text \<open>
  C7. While a shift of a request is \<open>IN_PROGRESS\<close>, every clock-in for that request
  fails and leaves the store as it is, so no second shift document is created; when the
  caller is the trainer the request is assigned to, the failure is a 409. Every reachable
  store has at most one \<open>IN_PROGRESS\<close> shift per request, and a clock-in keeps it so.
\<close>

theorem clockIn_at_most_one_in_progress:
  "(0 < inProgressCount requestId d
     \<longrightarrow> (\<exists>e. clockInShiftAsTrainer now newId trainerUserId requestId d = (Inl e, d))
        \<and> (isValidObjectId trainerUserId \<and> isValidObjectId requestId
             \<and> find (\<lambda>t. t_userId t = trainerUserId) (trainers d) = Some t
             \<and> findById sr_id requestId (shiftRequests d) = Some r
             \<and> sr_assignedTrainerId r = Some (t_id t)
            \<longrightarrow> (\<exists>msg. clockInShiftAsTrainer now newId trainerUserId requestId d
                        = (Inl (AppError msg 409), d))))
   \<and> (reachable d \<longrightarrow> inProgressCount requestId d \<le> 1)
   \<and> (inProgressCount requestId d \<le> 1
        \<longrightarrow> inProgressCount requestId
              (snd (clockInShiftAsTrainer now' newId' trainerUserId' requestId' d)) \<le> 1)"
proof (intro conjI impI)
  assume pos: "0 < inProgressCount requestId d"
  then have some: "find (\<lambda>s. sh_shiftRequestId s = requestId \<and> sh_status s = SHIFT_IN_PROGRESS) (shifts d)
      \<noteq> None"
    by (auto simp: inProgressCount_def find_None_filter)
  show "\<exists>e. clockInShiftAsTrainer now newId trainerUserId requestId d = (Inl e, d)"
  proof (cases rule: clockIn_cases[of now newId trainerUserId requestId d])
    case (fail e)
    then show ?thesis by blast
  next
    case (ok s d')
    from clockIn_success_shifts[OF ok] obtain r :: shiftRequest where
      "findById sr_id requestId (shiftRequests d) = Some r"
      "find (\<lambda>s. sh_shiftRequestId s = sr_id r \<and> sh_status s = SHIFT_IN_PROGRESS) (shifts d) = None"
      by blast
    with some show ?thesis by (auto dest: findById_Some)
  qed
  assume a: "isValidObjectId trainerUserId \<and> isValidObjectId requestId
             \<and> find (\<lambda>t. t_userId t = trainerUserId) (trainers d) = Some t
             \<and> findById sr_id requestId (shiftRequests d) = Some r
             \<and> sr_assignedTrainerId r = Some (t_id t)"
  then have "sr_id r = requestId"
    by (auto dest: findById_Some)
  with some a show "\<exists>msg. clockInShiftAsTrainer now newId trainerUserId requestId d
                        = (Inl (AppError msg 409), d)"
    by (cases "sr_status r = APPROVED") (auto simp: clockInShiftAsTrainer_def)
next
  assume "reachable d"
  then show "inProgressCount requestId d \<le> 1"
    by (rule reachable_inProgress)
next
  assume "inProgressCount requestId d \<le> 1"
  then show "inProgressCount requestId
              (snd (clockInShiftAsTrainer now' newId' trainerUserId' requestId' d)) \<le> 1"
    by (rule inProgressCount_clockIn)
qed

lemma reachable_db3: "reachable db3"
proof -
  have "reachable db0"
    by (rule reachable.init) (simp_all add: db0_def)
  then have "reachable db1"
    unfolding db1_def by (rule reachable.create)
  then have "reachable db2"
    unfolding db2_def by (rule reachable.approve)
  then show ?thesis
    unfolding db3_def by (rule reachable.clockIn)
qed

theorem clockIn_at_most_one_in_progress_witness:
  "0 < inProgressCount request1 db3
   \<and> (\<exists>msg. clockInShiftAsTrainer (hm 9 20) shift2 userT request1 db3
               = (Inl (AppError msg 409), db3))
   \<and> fst (clockInShiftAsTrainer (hm 9 20) shift2 userT request1 db3)
        = Inl (AppError ''This shift is already in progress'' 409)
   \<and> reachable db3
   \<and> inProgressCount request1 db3 \<le> 1
   \<and> inProgressCount request1 (snd (clockInShiftAsTrainer (hm 9 20) shift2 userT request1 db3)) \<le> 1"
proof -
  let ?t = "the (find (\<lambda>t. t_userId t = userT) (trainers db3))"
  let ?r = "the (findById sr_id request1 (shiftRequests db3))"
  have pos: "0 < inProgressCount request1 db3"
    by code_simp
  have "find (\<lambda>t. t_userId t = userT) (trainers db3) \<noteq> None"
    "findById sr_id request1 (shiftRequests db3) \<noteq> None"
    by code_simp+
  then have found: "find (\<lambda>t. t_userId t = userT) (trainers db3) = Some ?t"
    "findById sr_id request1 (shiftRequests db3) = Some ?r"
    by auto
  have v: "isValidObjectId userT" "isValidObjectId request1"
    and asg: "sr_assignedTrainerId ?r = Some (t_id ?t)"
    by code_simp+
  have h: "isValidObjectId userT \<and> isValidObjectId request1
             \<and> find (\<lambda>t. t_userId t = userT) (trainers db3) = Some ?t
             \<and> findById sr_id request1 (shiftRequests db3) = Some ?r
             \<and> sr_assignedTrainerId ?r = Some (t_id ?t)"
    using v found asg by blast
  have msg: "fst (clockInShiftAsTrainer (hm 9 20) shift2 userT request1 db3)
        = Inl (AppError ''This shift is already in progress'' 409)"
    by code_simp
  note c = clockIn_at_most_one_in_progress[where requestId = request1 and d = db3
      and now = "hm 9 20" and newId = shift2 and trainerUserId = userT and t = ?t and r = ?r
      and now' = "hm 9 20" and newId' = shift2 and trainerUserId' = userT and requestId' = request1]
  from c[THEN conjunct1, rule_format, OF pos, THEN conjunct2, rule_format, OF h]
    c[THEN conjunct2, THEN conjunct1, rule_format, OF reachable_db3]
    c[THEN conjunct2, THEN conjunct2, rule_format,
      OF c[THEN conjunct2, THEN conjunct1, rule_format, OF reachable_db3]]
    pos msg reachable_db3
  show ?thesis
    by blast
qed

section \<open>C2: clock-out caps the audit time and bills the scheduled window\<close>

lemma linkOk_alt:
  "linkOk d r \<longleftrightarrow>
     (\<forall>sid. sr_linkedShiftId r = Some sid \<longrightarrow>
        (\<exists>s. findById sh_id sid (shifts d) = Some s
           \<and> sh_scheduledStart s = sr_start r \<and> sh_scheduledEnd s = sr_end r))"
  by (auto simp: linkOk_def split: option.splits)

lemma linkOk_shifts: "shifts d' = shifts d \<Longrightarrow> linkOk d' r = linkOk d r"
  by (simp add: linkOk_alt)
























section \<open>C4: one line item per shift\<close>

lemma findIndex_None: "findIndex P xs = None \<longleftrightarrow> filter P xs = []"
  by (induction xs) auto

lemma findIndex_Some: "findIndex P xs = Some i \<Longrightarrow> i < length xs \<and> P (xs ! i)"
proof (induction xs arbitrary: i)
  case Nil
  then show ?case by simp
next
  case (Cons x xs)
  then show ?case by (auto split: if_splits)
qed

lemma itemCount_backfill [simp]: "itemCount s (map backfillHours its) = itemCount s its"
  by (induction its) (simp_all add: itemCount_def)

lemma itemCount_append [simp]:
  "itemCount s (its @ [item]) = itemCount s its + (if it_shiftId item = s then 1 else 0)"
  by (simp add: itemCount_def)

lemma itemCount_update:
  "i < length its \<Longrightarrow> it_shiftId (its ! i) = it_shiftId item
     \<Longrightarrow> itemCount s (its[i := item]) = itemCount s its"
proof (induction its arbitrary: i)
  case Nil
  then show ?case by simp
next
  case (Cons x xs)
  then show ?case by (cases i) (auto simp: itemCount_def)
qed

lemma itemCount_upsertItems:
  "itemCount s (upsertItems item its)
     = (if s = it_shiftId item then max 1 (itemCount s its) else itemCount s its)"
proof (cases "findIndex (\<lambda>i. it_shiftId i = it_shiftId item) its")
  case None
  then have "itemCount (it_shiftId item) its = 0"
    by (simp add: findIndex_None itemCount_def)
  with None show ?thesis
    by (auto simp: upsertItems_def)
next
  case (Some idx)
  from findIndex_Some[OF Some] have idx: "idx < length its" "it_shiftId (its ! idx) = it_shiftId item"
    by simp_all
  then have "its ! idx \<in> set (filter (\<lambda>i. it_shiftId i = it_shiftId item) its)"
    by simp
  then have "0 < itemCount (it_shiftId item) its"
    unfolding itemCount_def by (metis length_pos_if_in_set)
  with Some itemCount_update[OF idx] show ?thesis
    by (auto simp: upsertItems_def)
qed

lemma length_upsertItems_replace:
  "findIndex (\<lambda>i. it_shiftId i = it_shiftId item) its = Some idx
     \<Longrightarrow> length (upsertItems item its) = length its"
  by (simp add: upsertItems_def)

lemma find_snoc:
  "find P (xs @ [x]) = (case find P xs of Some y \<Rightarrow> Some y | None \<Rightarrow> if P x then Some x else None)"
  by (induction xs) auto

lemma find_saveDoc_same:
  assumes "find P xs = Some x" "idOf x' = idOf x" "P x'"
  shows "find P (saveDoc idOf x' xs) = Some x'"
  using assms unfolding saveDoc_def by (induction xs) (auto split: if_splits)

lemma find_saveDoc_other:
  assumes "\<forall>x\<in>set xs. idOf x = idOf x' \<longrightarrow> \<not> P x" "\<not> P x'"
  shows "find P (saveDoc idOf x' xs) = find P xs"
  using assms unfolding saveDoc_def by (induction xs) auto

lemma ids_saveDoc [simp]: "map idOf (saveDoc idOf x xs) = map idOf xs"
  unfolding saveDoc_def by (induction xs) auto

lemma distinct_ids_eq:
  "distinct (map idOf xs) \<Longrightarrow> x \<in> set xs \<Longrightarrow> y \<in> set xs \<Longrightarrow> idOf x = idOf y \<Longrightarrow> x = y"
  by (meson distinct_map inj_onD)

lemma idTaken_set: "idTaken idOf i xs \<longleftrightarrow> i \<in> idOf ` set xs"
  by (auto simp: idTaken_def list_ex_iff)

lemma sheetAfter_key [simp]:
  "ts_id (sheetAfter a E ts) = ts_id ts"
  "ts_trainerId (sheetAfter a E ts) = ts_trainerId ts"
  "ts_weekStart (sheetAfter a E ts) = ts_weekStart ts"
  "ts_weekEnd (sheetAfter a E ts) = E"
  by (simp_all add: sheetAfter_def Let_def)

lemma emptySheet_key [simp]:
  "ts_id (emptySheet i t w e) = i"
  "ts_trainerId (emptySheet i t w e) = t"
  "ts_weekStart (emptySheet i t w e) = w"
  by (simp_all add: emptySheet_def)

lemma upsert_distinct_ids:
  assumes "distinct (map ts_id (timesheets d))"
  shows "distinct (map ts_id (timesheets (snd (upsertTimesheetForShift newId a d))))"
proof (cases rule: upsert_cases[where newId = newId and a = a and d = d])
  case invalid
  with assms show ?thesis by simp
next
  case (found W E ts)
  with assms show ?thesis by simp
next
  case (taken W E)
  with assms show ?thesis by simp
next
  case (fresh W E)
  with assms show ?thesis
    by (simp add: idTaken_set)
qed

lemma upsert_sheet_after:
  assumes "fst (upsertTimesheetForShift newId a d) = Inr ts'"
  shows "\<exists>W E. startOfWeekUTC (ua_date a) = Some W \<and> endOfWeekUTC (Some W) = Some E
           \<and> findSheet (ua_trainerId a) W (snd (upsertTimesheetForShift newId a d)) = Some ts'
           \<and> ts_weekEnd ts' = E"
proof (cases rule: upsert_cases[where newId = newId and a = a and d = d])
  case invalid
  with assms show ?thesis by simp
next
  case (found W E ts)
  from found(3) have key: "ts_trainerId ts = ua_trainerId a \<and> ts_weekStart ts = W"
    by (auto simp: findSheet_def dest: find_Some_set)
  from assms have ts': "ts' = sheetAfter a E ts"
    by (simp add: found(4))
  have "find (\<lambda>t. ts_trainerId t = ua_trainerId a \<and> ts_weekStart t = W)
          (saveDoc ts_id (sheetAfter a E ts) (timesheets d)) = Some (sheetAfter a E ts)"
    using found(3) key by (intro find_saveDoc_same[where x = ts]) (simp_all add: findSheet_def)
  then have "findSheet (ua_trainerId a) W (snd (upsertTimesheetForShift newId a d)) = Some ts'"
    by (simp add: found(4) findSheet_def ts')
  with found(1,2) show ?thesis
    by (simp add: ts')
next
  case (taken W E)
  with assms show ?thesis by simp
next
  case (fresh W E)
  let ?e = "emptySheet newId (ua_trainerId a) W E"
  from assms have ts': "ts' = sheetAfter a E ?e"
    by (simp add: fresh(5))
  have "find (\<lambda>t. ts_trainerId t = ua_trainerId a \<and> ts_weekStart t = W)
          (timesheets d @ [?e]) = Some ?e"
    using fresh(3) by (simp add: findSheet_def find_snoc)
  then have "findSheet (ua_trainerId a) W (snd (upsertTimesheetForShift newId a d)) = Some ts'"
    unfolding ts' by (simp add: fresh(5) findSheet_def find_saveDoc_same)
  with fresh(1,2) show ?thesis
    by (simp add: ts')
qed

lemma sheetItemCount_upsert_stable:
  assumes dist: "distinct (map ts_id (timesheets d))"
    and one: "sheetItemCount T W S d = 1"
  shows "sheetItemCount T W S (snd (upsertTimesheetForShift newId a d)) = 1"
proof -
  let ?P = "\<lambda>t. ts_trainerId t = T \<and> ts_weekStart t = W"
  from one obtain t0 where t0: "findSheet T W d = Some t0" and c0: "itemCount S (ts_items t0) = 1"
    by (auto simp: sheetItemCount_def split: option.splits)
  from t0 have t0in: "t0 \<in> set (timesheets d)" and t0key: "?P t0"
    by (auto simp: findSheet_def dest: find_Some_set)
  show ?thesis
  proof (cases rule: upsert_cases[where newId = newId and a = a and d = d])
    case invalid
    with one show ?thesis by simp
  next
    case (found W' E ts)
    from found(3) have tsin: "ts \<in> set (timesheets d)"
      and tskey: "ts_trainerId ts = ua_trainerId a" "ts_weekStart ts = W'"
      by (auto simp: findSheet_def dest: find_Some_set)
    show ?thesis
    proof (cases "T = ua_trainerId a \<and> W = W'")
      case True
      with found(3) t0 have same: "ts = t0"
        by simp
      have "find ?P (saveDoc ts_id (sheetAfter a E ts) (timesheets d)) = Some (sheetAfter a E ts)"
        using t0 t0key same by (intro find_saveDoc_same[where x = ts]) (simp_all add: findSheet_def)
      then show ?thesis
        using c0 by (auto simp: found(4) sheetItemCount_def findSheet_def sheetAfter_items
            itemCount_upsertItems same)
    next
      case False
      with tskey have nP: "\<not> ?P ts" "\<not> ?P (sheetAfter a E ts)"
        by auto
      have "\<forall>x\<in>set (timesheets d). ts_id x = ts_id (sheetAfter a E ts) \<longrightarrow> \<not> ?P x"
        using distinct_ids_eq[OF dist _ tsin] nP(1) by auto
      from find_saveDoc_other[OF this nP(2)] t0 c0 show ?thesis
        by (simp add: found(4) sheetItemCount_def findSheet_def)
    qed
  next
    case (taken W' E)
    with one show ?thesis by simp
  next
    case (fresh W' E)
    let ?e = "emptySheet newId (ua_trainerId a) W' E"
    from fresh(3) t0 have "\<not> (T = ua_trainerId a \<and> W = W')"
      by auto
    then have nP: "\<not> ?P ?e" "\<not> ?P (sheetAfter a E ?e)"
      by auto
    from fresh(4) have "\<forall>x\<in>set (timesheets d). ts_id x \<noteq> newId"
      by (auto simp: idTaken_set)
    with nP have "\<forall>x\<in>set (timesheets d @ [?e]). ts_id x = ts_id (sheetAfter a E ?e) \<longrightarrow> \<not> ?P x"
      by auto
    from find_saveDoc_other[OF this nP(2)] t0 c0 show ?thesis
      by (simp add: fresh(5) sheetItemCount_def findSheet_def find_snoc)
  qed
qed

lemma sheetItemCount_upsertAll_stable:
  "distinct (map ts_id (timesheets d)) \<Longrightarrow> sheetItemCount T W S d = 1
     \<Longrightarrow> sheetItemCount T W S (upsertAll calls d) = 1"
proof (induction calls arbitrary: d)
  case Nil
  then show ?case by simp
next
  case (Cons c calls)
  obtain newId a where c: "c = (newId, a)" by (cases c)
  show ?case
    unfolding c upsertAll.simps
    by (rule Cons.IH) (simp_all add: upsert_distinct_ids sheetItemCount_upsert_stable Cons.prems)
qed

lemma upsert_keys_week:
  assumes "fst (upsertTimesheetForShift newId a d) = Inr ts'"
  shows "ts_trainerId ts' = ua_trainerId a \<and> Some (ts_weekStart ts') = startOfWeekUTC (ua_date a)
         \<and> Some (ts_weekEnd ts') = endOfWeekUTC (startOfWeekUTC (ua_date a))"
proof -
  from upsert_sheet_after[OF assms] obtain W E where
    w: "startOfWeekUTC (ua_date a) = Some W" "endOfWeekUTC (Some W) = Some E"
    and f: "findSheet (ua_trainerId a) W (snd (upsertTimesheetForShift newId a d)) = Some ts'"
    and e: "ts_weekEnd ts' = E"
    by blast
  from f have "ts_trainerId ts' = ua_trainerId a \<and> ts_weekStart ts' = W"
    by (auto simp: findSheet_def dest: find_Some_set)
  with w e show ?thesis
    by simp
qed

lemma weekOk_emptySheet: "endOfWeekUTC (Some W) = Some E \<Longrightarrow> weekOk (emptySheet i t W E)"
  by (simp add: weekOk_def emptySheet_def)

lemma weekOk_sheetAfter:
  "endOfWeekUTC (Some (ts_weekStart ts)) = Some E \<Longrightarrow> weekOk (sheetAfter a E ts)"
  by (simp add: weekOk_def)

lemma weekOk_status [simp]:
  "weekOk (ts\<lparr>ts_status := st\<rparr>) = weekOk ts"
  "weekOk (ts\<lparr>ts_status := st, ts_audit := au\<rparr>) = weekOk ts"
  by (simp_all add: weekOk_def)

lemma weekOk_saveDoc:
  assumes "list_all weekOk coll" "findById ts_id i coll = Some ts" "weekOk ts' = weekOk ts"
  shows "list_all weekOk (saveDoc ts_id ts' coll)"
proof -
  from assms(2) have "ts \<in> set coll"
    by (auto dest: findById_Some)
  with assms(1,3) have "weekOk ts'"
    by (auto simp: list_all_iff)
  with assms(1) show ?thesis
    by (rule list_all_saveDoc)
qed

lemma upsert_preserves_weekOk:
  assumes "list_all weekOk (timesheets d)"
  shows "list_all weekOk (timesheets (snd (upsertTimesheetForShift newId a d)))"
proof (cases rule: upsert_cases[where newId = newId and a = a and d = d])
  case invalid
  with assms show ?thesis by simp
next
  case (found W E ts)
  from found(3) have "ts_weekStart ts = W"
    by (auto simp: findSheet_def dest: find_Some_set)
  with found(2) have "weekOk (sheetAfter a E ts)"
    by (simp add: weekOk_sheetAfter)
  with assms show ?thesis
    by (simp add: found(4) list_all_saveDoc)
next
  case (taken W E)
  with assms show ?thesis by simp
next
  case (fresh W E)
  from fresh(2) have "weekOk (emptySheet newId (ua_trainerId a) W E)"
    "weekOk (sheetAfter a E (emptySheet newId (ua_trainerId a) W E))"
    by (simp_all add: weekOk_emptySheet weekOk_sheetAfter)
  with assms show ?thesis
    by (simp add: fresh(5) list_all_saveDoc)
qed

lemma reachable_weekOk: "reachable d \<Longrightarrow> list_all weekOk (timesheets d)"
proof (induction rule: reachable.induct)
  case (init d)
  then show ?case by simp
next
  case (profiles d us trs ps)
  then show ?case by simp
next
  case (clockOut d now newId trainerUserId requestId report)
  with clockOut_timesheets[of now newId trainerUserId requestId report d] show ?case
    by (auto simp: upsert_preserves_weekOk weekOk_emptySheet)
next
  case (upsert d newId a)
  then show ?case by (intro upsert_preserves_weekOk)
next
  case (submit d ident trainerUserId)
  then show ?case
    by (cases rule: submitTimesheet_cases[of ident trainerUserId d]) (simp_all add: weekOk_saveDoc)
next
  case (approveTs d ident adminUserId)
  then show ?case
    by (cases rule: approveTimesheet_cases[of ident adminUserId d]) (simp_all add: weekOk_saveDoc)
next
  case (reopen d now ident adminUserId reason)
  then show ?case
    by (cases rule: reopenTimesheet_cases[of now ident adminUserId reason d])
      (simp_all add: weekOk_saveDoc)
qed (simp_all add: timesheets_unchanged)

lemma reachable_week_valid:
  assumes "reachable d" "findSheet T W d = Some ts"
  shows "endOfWeekUTC (Some W) = Some (ts_weekEnd ts)"
proof -
  from assms(2) have "ts \<in> set (timesheets d)" "ts_weekStart ts = W"
    by (auto simp: findSheet_def dest: find_Some_set)
  with reachable_weekOk[OF assms(1)] show ?thesis
    by (auto simp: list_all_iff weekOk_def)
qed

text \<open>
  C4. Let \<open>W\<close> be the start of the week of the upsert's date, the week's end being a
  valid date, as it is for every sheet of a reachable store. When
  the week's sheet already holds exactly one line for the shift id, the upsert puts the
  new line at the position of the old one: the sheet keeps its length and still holds
  exactly one line for that shift id. Whenever an upsert succeeds on a sheet with at most
  one line for its shift id, the sheet then holds exactly one. And once a sheet holds
  exactly one line for a shift id, it holds exactly one after any further sequence of
  upserts, whatever their arguments (timesheet ids being unique in the store).
\<close>

theorem upsert_one_item_per_shift:
  "(startOfWeekUTC (ua_date a) = Some W \<and> endOfWeekUTC (Some W) \<noteq> None
      \<and> findSheet (ua_trainerId a) W d = Some ts
      \<and> itemCount (ua_shiftId a) (ts_items ts) = 1
     \<longrightarrow> (\<exists>ts' idx. upsertTimesheetForShift newId a d
                       = (Inr ts', d\<lparr>timesheets := saveDoc ts_id ts' (timesheets d)\<rparr>)
            \<and> findIndex (\<lambda>i. it_shiftId i = ua_shiftId a) (ts_items ts) = Some idx
            \<and> ts_items ts' = map backfillHours ((ts_items ts)[idx := newItem a])
            \<and> length (ts_items ts') = length (ts_items ts)
            \<and> itemCount (ua_shiftId a) (ts_items ts') = 1))
   \<and> (startOfWeekUTC (ua_date a) = Some W
        \<and> sheetItemCount (ua_trainerId a) W (ua_shiftId a) d \<le> 1
        \<and> fst (upsertTimesheetForShift newId a d) = Inr ts'
     \<longrightarrow> sheetItemCount (ua_trainerId a) W (ua_shiftId a)
            (snd (upsertTimesheetForShift newId a d)) = 1)
   \<and> (distinct (map ts_id (timesheets d)) \<and> sheetItemCount T W' S d = 1
     \<longrightarrow> sheetItemCount T W' S (upsertAll calls d) = 1)
   \<and> (reachable d \<and> findSheet T W' d = Some ts \<longrightarrow> endOfWeekUTC (Some W') \<noteq> None)"
proof (intro conjI impI)
  assume h: "startOfWeekUTC (ua_date a) = Some W \<and> endOfWeekUTC (Some W) \<noteq> None
      \<and> findSheet (ua_trainerId a) W d = Some ts
      \<and> itemCount (ua_shiftId a) (ts_items ts) = 1"
  then obtain E where E: "endOfWeekUTC (Some W) = Some E"
    by auto
  from h have "findIndex (\<lambda>i. it_shiftId i = ua_shiftId a) (ts_items ts) \<noteq> None"
    by (auto simp: findIndex_None itemCount_def)
  then obtain idx where idx: "findIndex (\<lambda>i. it_shiftId i = ua_shiftId a) (ts_items ts) = Some idx"
    by auto
  then have items: "ts_items (sheetAfter a E ts) = map backfillHours ((ts_items ts)[idx := newItem a])"
    by (simp add: sheetAfter_items upsertItems_def)
  have "itemCount (ua_shiftId a) (ts_items (sheetAfter a E ts)) = 1"
    using h by (simp add: sheetAfter_items itemCount_upsertItems)
  with h idx items E
  show "\<exists>ts' idx. upsertTimesheetForShift newId a d
                       = (Inr ts', d\<lparr>timesheets := saveDoc ts_id ts' (timesheets d)\<rparr>)
            \<and> findIndex (\<lambda>i. it_shiftId i = ua_shiftId a) (ts_items ts) = Some idx
            \<and> ts_items ts' = map backfillHours ((ts_items ts)[idx := newItem a])
            \<and> length (ts_items ts') = length (ts_items ts)
            \<and> itemCount (ua_shiftId a) (ts_items ts') = 1"
    by (intro exI[of _ "sheetAfter a E ts"] exI[of _ idx]) (simp add: upsert_found)
next
  assume h: "startOfWeekUTC (ua_date a) = Some W
        \<and> sheetItemCount (ua_trainerId a) W (ua_shiftId a) d \<le> 1
        \<and> fst (upsertTimesheetForShift newId a d) = Inr ts'"
  with upsert_sheet_after[of newId a d ts']
  have after: "findSheet (ua_trainerId a) W (snd (upsertTimesheetForShift newId a d)) = Some ts'"
    by auto
  have "itemCount (ua_shiftId a) (ts_items ts') = 1"
  proof (cases rule: upsert_cases[where newId = newId and a = a and d = d])
    case invalid
    with h show ?thesis by simp
  next
    case (found W0 E ts)
    with h have "itemCount (ua_shiftId a) (ts_items ts) \<le> 1" "ts' = sheetAfter a E ts"
      by (simp_all add: sheetItemCount_def)
    then show ?thesis
      by (simp add: sheetAfter_items itemCount_upsertItems)
  next
    case (taken W0 E)
    with h show ?thesis by simp
  next
    case (fresh W0 E)
    with h have "ts' = sheetAfter a E (emptySheet newId (ua_trainerId a) W0 E)"
      by auto
    moreover have "itemCount (ua_shiftId a) [] = 0"
      by (simp add: itemCount_def)
    ultimately show ?thesis
      by (simp add: sheetAfter_items itemCount_upsertItems)
  qed
  with after show "sheetItemCount (ua_trainerId a) W (ua_shiftId a)
            (snd (upsertTimesheetForShift newId a d)) = 1"
    by (simp add: sheetItemCount_def)
next
  assume "distinct (map ts_id (timesheets d)) \<and> sheetItemCount T W' S d = 1"
  then show "sheetItemCount T W' S (upsertAll calls d) = 1"
    by (simp add: sheetItemCount_upsertAll_stable)
next
  assume "reachable d \<and> findSheet T W' d = Some ts"
  then show "endOfWeekUTC (Some W') \<noteq> None"
    using reachable_week_valid[of d T W' ts] by simp
qed


theorem upsert_one_item_per_shift_witness:
  "startOfWeekUTC (hm 11 0) = Some (hm 0 0)
   \<and> reachable dbA
   \<and> endOfWeekUTC (Some (hm 0 0)) \<noteq> None
   \<and> sheetItemCount trainerT (hm 0 0) shift1 dbA = 1
   \<and> (\<exists>ts ts'. findSheet trainerT (hm 0 0) dbA = Some ts
          \<and> fst (upsertTimesheetForShift sheet2 upsertA' dbA) = Inr ts'
          \<and> length (ts_items ts') = length (ts_items ts)
          \<and> itemCount shift1 (ts_items ts') = 1)
   \<and> sheetItemCount trainerT (hm 0 0) shift1
         (snd (upsertTimesheetForShift sheet2 upsertA' dbA)) = 1
   \<and> sheetItemCount trainerT (hm 0 0) shift1 (upsertAll upsertCalls dbA) = 1"
proof -
  let ?ts = "the (findSheet trainerT (hm 0 0) dbA)"
  have args: "ua_trainerId upsertA' = trainerT" "ua_date upsertA' = hm 11 0"
    "ua_shiftId upsertA' = shift1"
    by (simp_all add: upsertA'_def upsertA_def)
  have week: "startOfWeekUTC (hm 11 0) = Some (hm 0 0)"
    by code_simp
  have "reachable db0"
    by (rule reachable.init) (simp_all add: db0_def)
  then have reach: "reachable dbA"
    unfolding dbA_def by (rule reachable.upsert)
  have "findSheet trainerT (hm 0 0) dbA \<noteq> None"
    by code_simp
  then have found: "findSheet trainerT (hm 0 0) dbA = Some ?ts"
    by auto
  have one: "itemCount shift1 (ts_items ?ts) = 1"
    by code_simp
  have cnt: "sheetItemCount trainerT (hm 0 0) shift1 dbA = 1"
    by code_simp
  have dist: "distinct (map ts_id (timesheets dbA))"
    by code_simp
  note c = upsert_one_item_per_shift[where a = upsertA' and d = dbA and ts = ?ts and newId = sheet2
      and W = "hm 0 0" and T = trainerT and W' = "hm 0 0" and S = shift1 and calls = upsertCalls,
      unfolded args]
  note valid = c[THEN conjunct2, THEN conjunct2, THEN conjunct2, rule_format, OF conjI[OF reach found]]
  from c[THEN conjunct1, rule_format, OF conjI[OF week conjI[OF valid conjI[OF found one]]]]
  obtain ts' where run: "upsertTimesheetForShift sheet2 upsertA' dbA
        = (Inr ts', dbA\<lparr>timesheets := saveDoc ts_id ts' (timesheets dbA)\<rparr>)"
    and len: "length (ts_items ts') = length (ts_items ?ts)"
    and one': "itemCount shift1 (ts_items ts') = 1"
    by blast
  from run have ok: "fst (upsertTimesheetForShift sheet2 upsertA' dbA) = Inr ts'"
    by simp
  from cnt have le: "sheetItemCount trainerT (hm 0 0) shift1 dbA \<le> 1"
    by simp
  from c[where ts' = ts', THEN conjunct2, THEN conjunct1, rule_format,
        OF conjI[OF week conjI[OF le ok]]]
    c[THEN conjunct2, THEN conjunct2, THEN conjunct1, rule_format, OF conjI[OF dist cnt]]
    cnt found ok len one' week reach valid
  show ?thesis
    by blast
qed

section \<open>C1: timesheet totals are the sums over the items\<close>

lemma sheetOk_status [simp]:
  "sheetOk (ts\<lparr>ts_status := st\<rparr>) = sheetOk ts"
  "sheetOk (ts\<lparr>ts_status := st, ts_audit := au\<rparr>) = sheetOk ts"
  by (simp_all add: sheetOk_def totalsAreSums_def)







end
